theory Spec2Isabelle
  imports Complex_Main "HOL-Library.AList"
begin

section \<open>Data model of classify\_skus.py\<close>

text \<open>
  A finite Python number (\<open>int\<close> or \<open>float\<close>) is the real it denotes, and
  Python's comparisons of numbers are the order of the reals. A Python \<open>dict\<close> is
  an association list in insertion order with pairwise distinct keys;
  \<open>AList.update\<close> is the assignment \<open>d[k] = v\<close>. A text is a list of characters
  with code points below 256.
\<close>

subsection \<open>Arithmetic\<close>

text \<open>
  Python's \<open>+\<close>, \<open>-\<close> and \<open>/\<close> on numbers and the builtin \<open>sum\<close> round their
  results to a double whenever a \<open>float\<close> is involved. The rounding is not fixed
  here: the four operations are a parameter \<open>ar\<close> of every function that calls
  them, so that a theorem about such a function holds for whatever the interpreter
  computes. \<open>exact_arith\<close> is the arithmetic without rounding, which is what Python
  computes on small integers.
\<close>

record arith =
  py_add :: "real \<Rightarrow> real \<Rightarrow> real"
  py_sub :: "real \<Rightarrow> real \<Rightarrow> real"
  py_div :: "real \<Rightarrow> real \<Rightarrow> real"
  py_sum :: "real list \<Rightarrow> real"

definition exact_arith :: arith where
  "exact_arith =
     \<lparr> py_add = (\<lambda>x y. x + y), py_sub = (\<lambda>x y. x - y), py_div = (\<lambda>x y. x / y),
       py_sum = sum_list \<rparr>"

text \<open>Addition and division as round-to-nearest makes them: adding a number that
  is not negative does not decrease a float, adding one that is not positive does
  not increase it, and a quotient by a positive number grows with its numerator.\<close>

definition monotone_arith :: "arith \<Rightarrow> bool" where
  "monotone_arith ar =
     ((\<forall>x y. 0 \<le> y \<longrightarrow> x \<le> py_add ar x y)
      \<and> (\<forall>x y. y \<le> 0 \<longrightarrow> py_add ar x y \<le> x)
      \<and> (\<forall>x y t. 0 < t \<and> x \<le> y \<longrightarrow> py_div ar x t \<le> py_div ar y t))"

datatype py_error = IndexError | ZeroDivisionError

text \<open>\<open>SKUData.cv\<close> is \<open>None\<close>, a float, or \<open>float('inf')\<close>.\<close>

datatype cvval = Finite real | Infinity

record SKUData =
  sku_code :: string
  supplier :: string
  warehouse :: string
  avg_ship_wk :: real
  wks_on_hand :: real
  beginning_inv :: real
  ending_inv :: real
  received :: real
  shipments :: real
  unit_cost :: real
  weight_lbs :: real
  length_in :: real
  width_in :: real
  height_in :: real
  dim_uom_units :: real
  annual_value :: real
  monthly_qty_out :: "(string \<times> real) list"
  cv :: "cvval option"
  abc_class :: string
  xyz_class :: string
  xyz_estimated :: bool

text \<open>\<open>SKUData.__init__\<close>.\<close>

definition new_SKUData :: "string \<Rightarrow> SKUData" where
  "new_SKUData code =
     \<lparr> sku_code = code, supplier = [], warehouse = [],
       avg_ship_wk = 0, wks_on_hand = 0, beginning_inv = 0, ending_inv = 0,
       received = 0, shipments = 0,
       unit_cost = 0, weight_lbs = 0, length_in = 0, width_in = 0, height_in = 0,
       dim_uom_units = 1,
       annual_value = 0, monthly_qty_out = [], cv = None,
       abc_class = [], xyz_class = [], xyz_estimated = False \<rparr>"

text \<open>The thresholds are the doubles that the literals \<open>0.80\<close> and \<open>0.96\<close> denote
  (\<open>0.5\<close> and \<open>1.0\<close> are doubles as they stand).\<close>

definition ABC_A_THRESHOLD :: real where
  "ABC_A_THRESHOLD = 3602879701896397 / 4503599627370496"
definition ABC_B_THRESHOLD :: real where
  "ABC_B_THRESHOLD = 1080863910568919 / 1125899906842624"
definition XYZ_X_THRESHOLD :: real where "XYZ_X_THRESHOLD = 0.5"
definition XYZ_Y_THRESHOLD :: real where "XYZ_Y_THRESHOLD = 1.0"
definition MIN_MONTHS_FOR_XYZ :: nat where "MIN_MONTHS_FOR_XYZ = 6"

subsection \<open>String helpers\<close>

text \<open>\<open>s.rstrip('GT')\<close>: Python removes every trailing character that is in the
  set \<open>{G, T}\<close>, however many there are and in whatever order.\<close>

definition rstrip_GT :: "string \<Rightarrow> string" where
  "rstrip_GT s = rev (dropWhile (\<lambda>c. c = CHR ''G'' \<or> c = CHR ''T'') (rev s))"

text \<open>\<open>str.isspace\<close> on a character below 256: the ASCII controls 9 to 13 and 28
  to 31, the space, the next-line control U+0085 and the no-break space U+00A0.\<close>

definition is_space :: "char \<Rightarrow> bool" where
  "is_space c = (c \<in> set [CHR '' '', CHR 0x09, CHR 0x0A, CHR 0x0B, CHR 0x0C, CHR 0x0D,
                            CHR 0x1C, CHR 0x1D, CHR 0x1E, CHR 0x1F, CHR 0x85, CHR 0xA0])"

text \<open>\<open>str.strip()\<close>, \<open>str.lower()\<close> (the letters A to Z, and U+00C0 to U+00DE
  without the multiplication sign U+00D7), \<open>str.startswith\<close>, \<open>sub in s\<close> and
  \<open>str.replace(p, '')\<close>.\<close>

definition strip :: "string \<Rightarrow> string" where
  "strip s = rev (dropWhile is_space (rev (dropWhile is_space s)))"

definition upper_letters :: string where
  "upper_letters =
     ''ABCDEFGHIJKLMNOPQRSTUVWXYZ''
     @ [CHR 0xC0, CHR 0xC1, CHR 0xC2, CHR 0xC3, CHR 0xC4, CHR 0xC5, CHR 0xC6, CHR 0xC7,
        CHR 0xC8, CHR 0xC9, CHR 0xCA, CHR 0xCB, CHR 0xCC, CHR 0xCD, CHR 0xCE, CHR 0xCF,
        CHR 0xD0, CHR 0xD1, CHR 0xD2, CHR 0xD3, CHR 0xD4, CHR 0xD5, CHR 0xD6,
        CHR 0xD8, CHR 0xD9, CHR 0xDA, CHR 0xDB, CHR 0xDC, CHR 0xDD, CHR 0xDE]"

definition lower_letters :: string where
  "lower_letters =
     ''abcdefghijklmnopqrstuvwxyz''
     @ [CHR 0xE0, CHR 0xE1, CHR 0xE2, CHR 0xE3, CHR 0xE4, CHR 0xE5, CHR 0xE6, CHR 0xE7,
        CHR 0xE8, CHR 0xE9, CHR 0xEA, CHR 0xEB, CHR 0xEC, CHR 0xED, CHR 0xEE, CHR 0xEF,
        CHR 0xF0, CHR 0xF1, CHR 0xF2, CHR 0xF3, CHR 0xF4, CHR 0xF5, CHR 0xF6,
        CHR 0xF8, CHR 0xF9, CHR 0xFA, CHR 0xFB, CHR 0xFC, CHR 0xFD, CHR 0xFE]"

definition lower_char :: "char \<Rightarrow> char" where
  "lower_char c =
     (case map_of (zip upper_letters lower_letters) c of
        Some d \<Rightarrow> d
      | None \<Rightarrow> c)"

definition lower :: "string \<Rightarrow> string" where
  "lower s = map lower_char s"

definition startswith :: "string \<Rightarrow> string \<Rightarrow> bool" where
  "startswith s p = (take (length p) s = p)"

fun contains :: "string \<Rightarrow> string \<Rightarrow> bool" where
  "contains [] sub = (sub = [])"
| "contains (c # cs) sub = (startswith (c # cs) sub \<or> contains cs sub)"

function remove_all :: "string \<Rightarrow> string \<Rightarrow> string" where
  "remove_all p s =
     (if s = [] then []
      else if p \<noteq> [] \<and> startswith s p then remove_all p (drop (length p) s)
      else hd s # remove_all p (tl s))"
  by pat_completeness auto
termination
  by (relation "measure (\<lambda>(p, s). length s)") auto

text \<open>Decimal rendering of a natural number, and the zero-padded \<open>:02d\<close> and
  \<open>:04d\<close> forms.\<close>

fun digits :: "nat \<Rightarrow> string" where
  "digits n = (if n < 10 then [''0123456789'' ! n]
               else digits (n div 10) @ [''0123456789'' ! (n mod 10)])"

definition pad2 :: "nat \<Rightarrow> string" where
  "pad2 n = (if n < 10 then CHR ''0'' # digits n else digits n)"

definition pad4 :: "nat \<Rightarrow> string" where
  "pad4 n = replicate (4 - length (digits n)) CHR ''0'' @ digits n"

text \<open>\<open>d.get(k, {})\<close> on a dict of dicts.\<close>

definition get_or_empty :: "('k \<times> 'v list) list \<Rightarrow> 'k \<Rightarrow> 'v list" where
  "get_or_empty d k = (case map_of d k of Some v \<Rightarrow> v | None \<Rightarrow> [])"

subsection \<open>Spreadsheet cells\<close>

text \<open>
  A cell value as openpyxl delivers it: \<open>None\<close>, a number (\<open>int\<close>, \<open>float\<close> or
  \<open>bool\<close>), a text, or a \<open>datetime\<close>. \<open>CNum v s\<close> is a number of value \<open>v\<close>
  whose Python \<open>str()\<close> is \<open>s\<close> (so \<open>True\<close> is \<open>CNum 1 ''True''\<close>);
  \<open>CDate y m d\<close> is a \<open>datetime\<close> at midnight.
\<close>

datatype cell = CNone | CNum real string | CText string | CDate nat nat nat

type_synonym row = "cell list"

text \<open>\<open>str(x or '')\<close>: \<open>None\<close>, the number zero and the empty text are falsy.\<close>

fun text_of :: "cell \<Rightarrow> string" where
  "text_of CNone = []"
| "text_of (CNum v s) = (if v = 0 then [] else s)"
| "text_of (CText t) = t"
| "text_of (CDate y m d) = pad4 y @ ''-'' @ pad2 m @ ''-'' @ pad2 d @ '' 00:00:00''"

text \<open>\<open>isinstance(x, (int, float))\<close>.\<close>

fun is_number :: "cell \<Rightarrow> bool" where
  "is_number (CNum v s) = True"
| "is_number c = False"

text \<open>The guarded read \<open>row[i] if len(row) > i and isinstance(row[i], (int, float))
  else d\<close>.\<close>

definition num_at :: "row \<Rightarrow> nat \<Rightarrow> real \<Rightarrow> real" where
  "num_at row i d =
     (if length row > i then (case row ! i of CNum v s \<Rightarrow> v | _ \<Rightarrow> d) else d)"

text \<open>The guarded read \<open>str(row[i] or '').strip() if len(row) > i else ''\<close>.\<close>

definition text_at :: "row \<Rightarrow> nat \<Rightarrow> string" where
  "text_at row i = (if length row > i then strip (text_of (row ! i)) else [])"

text \<open>\<open>int(x)\<close> on a number: truncation towards zero.\<close>

definition py_int :: "real \<Rightarrow> real" where
  "py_int x = (if x \<ge> 0 then of_int \<lfloor>x\<rfloor> else of_int \<lceil>x\<rceil>)"

subsection \<open>Dates\<close>

text \<open>\<open>datetime.strptime(s, "%m/%d/%Y")\<close>: month and day of one or two digits, a
  year of four digits, the whole string consumed, and a date that exists; anything
  else raises \<open>ValueError\<close> (here \<open>None\<close>).\<close>

definition digit_val :: "char \<Rightarrow> nat option" where
  "digit_val c = map_of (zip ''0123456789'' [0, 1, 2, 3, 4, 5, 6, 7, 8, 9]) c"

definition parse_month :: "string \<Rightarrow> nat option" where
  "parse_month s =
     (case map digit_val s of
        [Some a] \<Rightarrow> if 1 \<le> a then Some a else None
      | [Some a, Some b] \<Rightarrow> if 1 \<le> 10 * a + b \<and> 10 * a + b \<le> 12 then Some (10 * a + b) else None
      | _ \<Rightarrow> None)"

definition parse_day :: "string \<Rightarrow> nat option" where
  "parse_day s =
     (case s of
        [c] \<Rightarrow> (case digit_val c of Some a \<Rightarrow> if 1 \<le> a then Some a else None | None \<Rightarrow> None)
      | [c, d] \<Rightarrow>
          (case (digit_val c, digit_val d) of
             (Some a, Some b) \<Rightarrow>
               if 1 \<le> 10 * a + b \<and> 10 * a + b \<le> 31 then Some (10 * a + b) else None
           | (None, Some b) \<Rightarrow> if c = CHR '' '' \<and> 1 \<le> b then Some b else None
           | _ \<Rightarrow> None)
      | _ \<Rightarrow> None)"

definition parse_year :: "string \<Rightarrow> nat option" where
  "parse_year s =
     (case map digit_val s of
        [Some a, Some b, Some c, Some d] \<Rightarrow> Some (1000 * a + 100 * b + 10 * c + d)
      | _ \<Rightarrow> None)"

definition is_leap :: "nat \<Rightarrow> bool" where
  "is_leap y = (y mod 4 = 0 \<and> (y mod 100 \<noteq> 0 \<or> y mod 400 = 0))"

definition days_in_month :: "nat \<Rightarrow> nat \<Rightarrow> nat" where
  "days_in_month y m =
     (if m = 2 then (if is_leap y then 29 else 28)
      else if m \<in> set [4, 6, 9, 11] then 30 else 31)"

definition strptime_mdY :: "string \<Rightarrow> (nat \<times> nat \<times> nat) option" where
  "strptime_mdY s =
     (let ms = takeWhile (\<lambda>c. c \<noteq> CHR ''/'') s;
          r1 = dropWhile (\<lambda>c. c \<noteq> CHR ''/'') s;
          ds = takeWhile (\<lambda>c. c \<noteq> CHR ''/'') (tl r1);
          r2 = dropWhile (\<lambda>c. c \<noteq> CHR ''/'') (tl r1);
          ys = tl r2
      in if r1 = [] \<or> r2 = [] then None
         else (case (parse_month ms, parse_day ds, parse_year ys) of
                 (Some m, Some d, Some y) \<Rightarrow>
                   if 1 \<le> y \<and> d \<le> days_in_month y m then Some (y, m, d) else None
               | _ \<Rightarrow> None))"

text \<open>The month key \<open>f"{dt.year}-{dt.month:02d}"\<close>.\<close>

definition month_key :: "nat \<Rightarrow> nat \<Rightarrow> string" where
  "month_key y m = digits y @ ''-'' @ pad2 m"

section \<open>XYZ classification (compute\_xyz)\<close>

type_synonym histogram = "(string \<times> real) list"

text \<open>The three lookups at the head of the loop body of \<open>compute_xyz\<close>; an empty
  dict is falsy, so an empty hit falls through to the next form of the key.\<close>

definition resolve_monthly :: "(string \<times> histogram) list \<Rightarrow> string \<Rightarrow> histogram" where
  "resolve_monthly monthly_data code =
     (let monthly = get_or_empty monthly_data code;
          monthly = (if monthly = [] then get_or_empty monthly_data (rstrip_GT code)
                     else monthly);
          monthly = (if monthly = [] then get_or_empty monthly_data (code @ ''GT'')
                     else monthly)
      in monthly)"

text \<open>\<open>statistics.mean\<close> and \<open>statistics.stdev\<close> (sample standard deviation); the
  source calls them on at least six values only. They are written without rounding
  and for finite values; no theorem below is about a measured coefficient of
  variation.\<close>

definition mean :: "real list \<Rightarrow> real" where
  "mean xs = sum_list xs / real (length xs)"

definition stdev :: "real list \<Rightarrow> real" where
  "stdev xs = sqrt (sum_list (map (\<lambda>x. (x - mean xs)\<^sup>2) xs) / real (length xs - 1))"

text \<open>\<open>sku.cv < threshold\<close>: the infinity sentinel is below no threshold.\<close>

fun cv_less :: "cvval \<Rightarrow> real \<Rightarrow> bool" where
  "cv_less (Finite c) t = (c < t)"
| "cv_less Infinity t = False"

text \<open>The measured branch (at least \<open>MIN_MONTHS_FOR_XYZ\<close> months).\<close>

definition xyz_measured :: "histogram \<Rightarrow> SKUData \<Rightarrow> SKUData" where
  "xyz_measured monthly sku =
     (let values = map snd monthly;
          mean_val = mean values
      in sku\<lparr> cv := Some (if mean_val > 0
                          then Finite ((if length values > 1 then stdev values else 0) / mean_val)
                          else Infinity),
              monthly_qty_out := monthly \<rparr>)"

text \<open>The estimate branch (insufficient history).\<close>

definition xyz_estimate :: "SKUData \<Rightarrow> SKUData" where
  "xyz_estimate sku =
     sku\<lparr> cv := Some (if avg_ship_wk sku \<ge> 10 then Finite 0.6
                      else if avg_ship_wk sku \<ge> 1 then Finite 0.8
                      else if avg_ship_wk sku > 0 then Finite 1.2
                      else Infinity),
          xyz_estimated := True \<rparr>"

text \<open>The final \<open>if sku.cv is not None\<close> block.\<close>

definition xyz_classify :: "SKUData \<Rightarrow> SKUData" where
  "xyz_classify sku =
     (case cv sku of
        None \<Rightarrow> sku
      | Some c \<Rightarrow>
          if cv_less c XYZ_X_THRESHOLD then sku\<lparr> xyz_class := ''X'' \<rparr>
          else if cv_less c XYZ_Y_THRESHOLD then sku\<lparr> xyz_class := ''Y'' \<rparr>
          else sku\<lparr> xyz_class := ''Z'' \<rparr>)"

text \<open>One iteration of the loop over \<open>skus.items()\<close>.\<close>

definition xyz_one :: "(string \<times> histogram) list \<Rightarrow> string \<Rightarrow> SKUData \<Rightarrow> SKUData" where
  "xyz_one monthly_data code sku =
     (let monthly = resolve_monthly monthly_data code
      in xyz_classify
           (if length monthly \<ge> MIN_MONTHS_FOR_XYZ then xyz_measured monthly sku
            else xyz_estimate sku))"


section \<open>Supplier names (resolve\_supplier)\<close>

definition SUPPLIER_MAP :: "(string \<times> string) list" where
  "SUPPLIER_MAP =
     [(''alliance metal changzhou'', ''AMC''),
      (''amc'', ''AMC''),
      (''hx/ whi'', ''HX''),
      (''hx/whi'', ''HX''),
      (''zhongxing'', ''ZhongXing''),
      (''zhong xing'', ''ZhongXing''),
      (''tianjin'', ''TianJin''),
      (''tianjin/whi'', ''TianJin''),
      (''tianijn'', ''TianJin''),
      (''winschem'', ''WINSCHEM''),
      (''changzhou winschem'', ''WINSCHEM''),
      (''changzhou nuode'', ''Nuode''),
      (''nuode'', ''Nuode'')]"

definition resolve_supplier :: "string \<Rightarrow> string" where
  "resolve_supplier raw_name =
     (let lower_name = strip (lower raw_name)
      in case find (\<lambda>(key, code). contains lower_name key) SUPPLIER_MAP of
           Some (key, code) \<Rightarrow> code
         | None \<Rightarrow> strip raw_name)"

section \<open>Depletion sheet (parse\_depletion)\<close>

record dep_state =
  dep_skus :: "(string \<times> SKUData) list"
  current_warehouse :: string
  current_supplier :: string

text \<open>The branch \<open>if sku_code in skus\<close>: the sums are taken first, and the test
  that follows subtracts from the updated \<open>existing.avg_ship_wk\<close>.\<close>

definition merge_sighting ::
  "arith \<Rightarrow> SKUData \<Rightarrow> real \<Rightarrow> real \<Rightarrow> real \<Rightarrow> real \<Rightarrow> real \<Rightarrow> real \<Rightarrow> string \<Rightarrow> SKUData" where
  "merge_sighting ar existing avg_ship woh beg_inv received_v shipments_v ending_inv_v cur_wh =
     (let existing = existing\<lparr> avg_ship_wk := py_add ar (avg_ship_wk existing) avg_ship \<rparr>;
          existing = existing\<lparr> beginning_inv := py_add ar (beginning_inv existing) beg_inv \<rparr>;
          existing = existing\<lparr> ending_inv := py_add ar (ending_inv existing) ending_inv_v \<rparr>;
          existing = existing\<lparr> received := py_add ar (received existing) received_v \<rparr>;
          existing = existing\<lparr> shipments := py_add ar (shipments existing) shipments_v \<rparr>
      in if avg_ship > py_sub ar (avg_ship_wk existing) avg_ship
         then existing\<lparr> wks_on_hand := woh, warehouse := cur_wh \<rparr>
         else existing)"

text \<open>The \<open>else\<close> branch: a new record.\<close>

definition first_sighting :: "string \<Rightarrow> real \<Rightarrow> real \<Rightarrow> real \<Rightarrow> real \<Rightarrow> real \<Rightarrow> real \<Rightarrow> string \<Rightarrow> string \<Rightarrow> SKUData" where
  "first_sighting code avg_ship woh beg_inv received_v shipments_v ending_inv_v cur_wh cur_sup =
     (new_SKUData code)\<lparr> supplier := cur_sup, warehouse := cur_wh,
        avg_ship_wk := avg_ship, wks_on_hand := woh,
        beginning_inv := py_int beg_inv, ending_inv := py_int ending_inv_v,
        received := py_int received_v, shipments := py_int shipments_v \<rparr>"

text \<open>A SKU data row: the reads from the fixed columns, then create or merge.\<close>

definition depletion_sku :: "arith \<Rightarrow> dep_state \<Rightarrow> string \<Rightarrow> row \<Rightarrow> dep_state" where
  "depletion_sku ar st code row =
     (let avg_ship = num_at row 16 0;
          woh = num_at row 17 0;
          beg_inv = num_at row 2 0;
          received_v = num_at row 5 0;
          shipments_v = num_at row 9 0;
          ending_inv_v = num_at row 13 0
      in case map_of (dep_skus st) code of
           Some existing \<Rightarrow>
             st\<lparr> dep_skus := AList.update code
                    (merge_sighting ar existing avg_ship woh beg_inv received_v shipments_v
                       ending_inv_v (current_warehouse st))
                    (dep_skus st) \<rparr>
         | None \<Rightarrow>
             st\<lparr> dep_skus := AList.update code
                    (first_sighting code avg_ship woh beg_inv received_v shipments_v
                       ending_inv_v (current_warehouse st) (current_supplier st))
                    (dep_skus st) \<rparr>)"

text \<open>One iteration of the row loop. \<open>row[0]\<close>, \<open>row[2]\<close> and \<open>row[3]\<close> are read
  without a length test and raise \<open>IndexError\<close> on a shorter row.\<close>

definition depletion_row :: "arith \<Rightarrow> dep_state \<Rightarrow> row \<Rightarrow> py_error + dep_state" where
  "depletion_row ar st row =
     (if row = [] then Inl IndexError
      else
        let cell0 = strip (text_of (row ! 0))
        in if startswith cell0 ''Warehouse:''
           then Inr (st\<lparr> current_warehouse := strip (remove_all ''Warehouse:'' cell0) \<rparr>)
           else if cell0 = [] \<or> cell0 = ''SKU'' \<or> startswith cell0 ''Total''
                   \<or> startswith cell0 ''Grand'' \<or> startswith cell0 ''Item Activity''
           then Inr st
           else if length row \<le> 2 then Inl IndexError
           else if row ! 2 = CNone \<and> length row \<le> 3 then Inl IndexError
           else if row ! 2 = CNone
                   \<and> (contains (text_of (row ! 3)) ''Item Activity From''
                      \<or> \<not> list_ex (\<lambda>i. is_number (row ! i)) (filter (\<lambda>i. i < length row) [2..<18]))
           then Inr (st\<lparr> current_supplier := resolve_supplier cell0 \<rparr>)
           else Inr (depletion_sku ar st cell0 row))"

fun depletion_rows :: "arith \<Rightarrow> dep_state \<Rightarrow> row list \<Rightarrow> py_error + dep_state" where
  "depletion_rows ar st [] = Inr st"
| "depletion_rows ar st (row # rows) =
     (case depletion_row ar st row of
        Inl e \<Rightarrow> Inl e
      | Inr st' \<Rightarrow> depletion_rows ar st' rows)"

definition parse_depletion :: "arith \<Rightarrow> row list \<Rightarrow> py_error + (string \<times> SKUData) list" where
  "parse_depletion ar rows =
     (case depletion_rows ar \<lparr> dep_skus = [], current_warehouse = [], current_supplier = [] \<rparr> rows of
        Inl e \<Rightarrow> Inl e
      | Inr st \<Rightarrow> Inr (dep_skus st))"

section \<open>Item master (parse\_view\_item)\<close>

text \<open>The per-SKU dict built by \<open>parse_view_item\<close>.\<close>

record item =
  cost :: real
  description :: string
  item_weight_lbs :: real
  item_length_in :: real
  item_width_in :: real
  item_height_in :: real
  item_dim_uom_units :: real
  item_supplier :: string

record view_state =
  vi_items :: "(string \<times> item) list"
  current_sku :: "string option"
  supplier_name :: string
  next_is_dimensions :: bool

definition skip_prefixes :: "string list" where
  "skip_prefixes = [''SKU'', ''Dimensional'', ''Storage'', ''Track By'', ''View Item'']"

text \<open>The body of \<open>if next_is_dimensions\<close> for the open SKU \<open>cur\<close>, whose
  entry is \<open>it\<close>.\<close>

definition dimensions_row :: "view_state \<Rightarrow> string \<Rightarrow> item \<Rightarrow> row \<Rightarrow> view_state" where
  "dimensions_row st cur it row =
     (let dim_uom = text_at row 2;
          dim_units = (if length row > 3 \<and> is_number (row ! 3) then row ! 3 else CNone);
          st' =
            (if dim_uom \<noteq> [] \<and> dim_units \<noteq> CNone \<and> num_at row 3 0 \<noteq> 0
             then
               let length_v = num_at row 6 0;
                   width_v = num_at row 7 0;
                   height_v = num_at row 8 0;
                   weight_v = num_at row 10 0
               in if length_v > 0 \<and> item_length_in it = 0
                  then st\<lparr> vi_items := AList.update cur
                         (it\<lparr> item_length_in := length_v, item_width_in := width_v,
                              item_height_in := height_v, item_weight_lbs := weight_v,
                              item_dim_uom_units := num_at row 3 0 \<rparr>)
                         (vi_items st) \<rparr>
                  else st
             else st)
      in st'\<lparr> next_is_dimensions := False \<rparr>)"

text \<open>One iteration of the row loop of a sheet. A row with an empty first cell is
  looked at only when \<open>current_sku\<close> is truthy (neither \<open>None\<close> nor an empty
  text) and a key of \<open>items\<close>.\<close>

definition view_item_row :: "view_state \<Rightarrow> row \<Rightarrow> py_error + view_state" where
  "view_item_row st row =
     (if row = [] then Inl IndexError
      else
        let cell0 = strip (text_of (row ! 0))
        in if list_ex (startswith cell0) skip_prefixes
           then Inr (st\<lparr> next_is_dimensions := (cell0 = ''Dimensional UOM'') \<rparr>)
           else if cell0 \<noteq> []
           then
             (let st = st\<lparr> next_is_dimensions := False \<rparr>;
                  cost_val = (if length row > 9 then row ! 9 else CNone)
              in if is_number cost_val \<and> num_at row 9 0 > 0
                 then Inr (st\<lparr> current_sku := Some cell0,
                               vi_items := AList.update cell0
                                 \<lparr> cost = num_at row 9 0,
                                   description = text_of (row ! 1),
                                   item_weight_lbs = 0, item_length_in = 0,
                                   item_width_in = 0, item_height_in = 0,
                                   item_dim_uom_units = 1,
                                   item_supplier = resolve_supplier (supplier_name st) \<rparr>
                                 (vi_items st) \<rparr>)
                 else Inr (st\<lparr> supplier_name := cell0 \<rparr>))
           else
             (case current_sku st of
                None \<Rightarrow> Inr st
              | Some cur \<Rightarrow>
                  if cur = [] then Inr st
                  else
                    (case map_of (vi_items st) cur of
                       None \<Rightarrow> Inr st
                     | Some it \<Rightarrow>
                         if next_is_dimensions st then Inr (dimensions_row st cur it row)
                         else Inr st)))"

fun view_item_rows :: "view_state \<Rightarrow> row list \<Rightarrow> py_error + view_state" where
  "view_item_rows st [] = Inr st"
| "view_item_rows st (row # rows) =
     (case view_item_row st row of
        Inl e \<Rightarrow> Inl e
      | Inr st' \<Rightarrow> view_item_rows st' rows)"

text \<open>The loop over the sheets: \<open>items\<close> is shared, the rest of the state starts
  anew in each sheet.\<close>

fun view_item_sheets :: "(string \<times> item) list \<Rightarrow> row list list \<Rightarrow> py_error + (string \<times> item) list" where
  "view_item_sheets its [] = Inr its"
| "view_item_sheets its (sheet # sheets) =
     (case view_item_rows
             \<lparr> vi_items = its, current_sku = None, supplier_name = [],
               next_is_dimensions = False \<rparr> sheet of
        Inl e \<Rightarrow> Inl e
      | Inr st \<Rightarrow> view_item_sheets (vi_items st) sheets)"

definition parse_view_item :: "row list list \<Rightarrow> py_error + (string \<times> item) list" where
  "parse_view_item sheets = view_item_sheets [] sheets"

section \<open>Activity reports (parse\_activity\_reports)\<close>

record act_state =
  monthly_out :: "(string \<times> histogram) list"
  total_transactions :: nat
  filtered_adjustments :: nat
  filtered_moves :: nat
  act_current_sku :: "string option"
  file_tx :: nat
  file_filtered :: nat

text \<open>\<open>monthly_out[current_sku][month_key] += qty_out\<close> on a
  \<open>defaultdict(lambda: defaultdict(float))\<close>.\<close>

definition add_qty ::
  "arith \<Rightarrow> (string \<times> histogram) list \<Rightarrow> string \<Rightarrow> string \<Rightarrow> real \<Rightarrow> (string \<times> histogram) list" where
  "add_qty ar mo sku key qty =
     (let hist = get_or_empty mo sku;
          old = (case map_of hist key of Some v \<Rightarrow> v | None \<Rightarrow> 0)
      in AList.update sku (AList.update key (py_add ar old qty) hist) mo)"

text \<open>\<open>dt\<close> of a transaction row: the cell itself when it is a \<open>datetime\<close>, else
  the parsed text; \<open>None\<close> when parsing raises.\<close>

definition row_date :: "row \<Rightarrow> string \<Rightarrow> (nat \<times> nat \<times> nat) option" where
  "row_date row date_str =
     (case row ! 5 of
        CDate y m d \<Rightarrow> Some (y, m, d)
      | _ \<Rightarrow> strptime_mdY date_str)"

text \<open>The reference text \<open>str(row[7] or '').strip().lower() if len(row) > 7 else ''\<close>.\<close>

definition ref_of :: "row \<Rightarrow> string" where
  "ref_of row = (if length row > 7 then lower (strip (text_of (row ! 7))) else [])"

text \<open>The test for a SKU header row: column 1 holds a code and column 4 a positive
  number.\<close>

definition sku_header :: "row \<Rightarrow> bool" where
  "sku_header row =
     (let col1 = text_at row 1
      in col1 \<noteq> [] \<and> col1 \<notin> set [[], ''Totals:'', ''SKU''] \<and> length row > 4
         \<and> is_number (row ! 4) \<and> num_at row 4 0 > 0)"

text \<open>The read \<open>monthly_out[sku][key]\<close>, 0 where the bucket does not exist.\<close>

definition bucket :: "(string \<times> histogram) list \<Rightarrow> string \<Rightarrow> string \<Rightarrow> real" where
  "bucket mo sku key = (case map_of (get_or_empty mo sku) key of Some v \<Rightarrow> v | None \<Rightarrow> 0)"

text \<open>One iteration of the row loop of a file. \<open>if not current_sku\<close> skips the
  row when no SKU is open (\<open>None\<close>, or an empty text).\<close>

definition activity_row :: "arith \<Rightarrow> act_state \<Rightarrow> row \<Rightarrow> act_state" where
  "activity_row ar st row =
     (let col1 = text_at row 1
      in if sku_header row
         then st\<lparr> act_current_sku := Some col1 \<rparr>
         else
           (case act_current_sku st of
              None \<Rightarrow> st
            | Some sku \<Rightarrow>
                let date_str = text_at row 5
                in if sku = [] \<or> date_str = []
                      \<or> date_str \<in> set [''Activity Date'', ''Beginning Balance'',
                                           ''Ending Balance'', []]
                   then st
                   else
                     (case row_date row date_str of
                        None \<Rightarrow> st
                      | Some (y, m, d) \<Rightarrow>
                          let ref = ref_of row
                          in if contains ref ''adjust'' \<or> contains ref ''adj''
                             then st\<lparr> filtered_adjustments := filtered_adjustments st + 1,
                                      file_filtered := file_filtered st + 1 \<rparr>
                             else if startswith ref ''mv''
                             then st\<lparr> filtered_moves := filtered_moves st + 1,
                                      file_filtered := file_filtered st + 1 \<rparr>
                             else
                               let qty_out = num_at row 10 0
                               in if qty_out > 0
                                  then st\<lparr> monthly_out :=
                                             add_qty ar (monthly_out st) sku (month_key y m) qty_out,
                                           file_tx := file_tx st + 1,
                                           total_transactions := total_transactions st + 1 \<rparr>
                                  else st)))"

text \<open>The loop over the files; \<open>None\<close> is a path that does not exist.\<close>

definition activity_file :: "arith \<Rightarrow> act_state \<Rightarrow> row list option \<Rightarrow> act_state" where
  "activity_file ar st file =
     (case file of
        None \<Rightarrow> st
      | Some rows \<Rightarrow>
          foldl (activity_row ar)
            (st\<lparr> act_current_sku := None, file_tx := 0, file_filtered := 0 \<rparr>) rows)"

definition activity_files :: "arith \<Rightarrow> row list option list \<Rightarrow> act_state" where
  "activity_files ar files =
     foldl (activity_file ar)
       \<lparr> monthly_out = [], total_transactions = 0, filtered_adjustments = 0,
         filtered_moves = 0, act_current_sku = None, file_tx = 0, file_filtered = 0 \<rparr>
       files"

definition parse_activity_reports ::
  "arith \<Rightarrow> row list option list \<Rightarrow> (string \<times> histogram) list" where
  "parse_activity_reports ar files = monthly_out (activity_files ar files)"

section \<open>Key resolution\<close>

text \<open>The chain \<open>if code in d ... elif code.rstrip('GT') in d ... elif code + 'GT'
  in d\<close> that \<open>compute_abc\<close> and \<open>merge_master_data\<close> both run; \<open>None\<close> when
  no branch is taken.\<close>

definition resolve_key :: "(string \<times> 'v) list \<Rightarrow> string \<Rightarrow> 'v option" where
  "resolve_key d code =
     (case map_of d code of
        Some v \<Rightarrow> Some v
      | None \<Rightarrow>
          (case map_of d (rstrip_GT code) of
             Some v \<Rightarrow> Some v
           | None \<Rightarrow> map_of d (code @ ''GT'')))"

section \<open>Master data merge (merge\_master\_data)\<close>

definition merge_one :: "(string \<times> item) list \<Rightarrow> string \<Rightarrow> SKUData \<Rightarrow> SKUData" where
  "merge_one view_items code sku =
     (case resolve_key view_items code of
        Some it \<Rightarrow>
          sku\<lparr> unit_cost := cost it,
               weight_lbs := item_weight_lbs it,
               length_in := item_length_in it,
               width_in := item_width_in it,
               height_in := item_height_in it,
               dim_uom_units := item_dim_uom_units it,
               supplier := (if supplier sku = [] then item_supplier it else supplier sku) \<rparr>
      | None \<Rightarrow> sku)"


section \<open>ABC classification (compute\_abc)\<close>

text \<open>The first loop: unit cost and annual value of one record, and the dict
  after that loop. The product is written with the exact operators; the theorems on
  the classification take the dict after this loop as they find it.\<close>

definition abc_value :: "(string \<times> item) list \<Rightarrow> string \<Rightarrow> SKUData \<Rightarrow> SKUData" where
  "abc_value costs code sku =
     (let cost_v = (case resolve_key costs code of Some it \<Rightarrow> cost it | None \<Rightarrow> 0)
      in sku\<lparr> unit_cost := cost_v, annual_value := avg_ship_wk sku * 52 * cost_v \<rparr>)"

definition abc_valued :: "(string \<times> SKUData) list \<Rightarrow> (string \<times> item) list \<Rightarrow> (string \<times> SKUData) list" where
  "abc_valued skus costs = map (\<lambda>(code, sku). (code, abc_value costs code sku)) skus"

text \<open>\<open>sorted(skus.values(), key=lambda s: s.annual_value, reverse=True)\<close>: a
  stable sort, so records of equal value keep the order of the dict. Each record
  stays paired with its dict key, which identifies the object that the later
  assignments mutate.\<close>

definition sort_desc :: "(string \<times> SKUData) list \<Rightarrow> (string \<times> SKUData) list" where
  "sort_desc xs = sort_key (\<lambda>(code, sku). - annual_value sku) xs"

text \<open>The annual value of a record paired with its key.\<close>

definition value_of :: "string \<times> SKUData \<Rightarrow> real" where
  "value_of p = annual_value (snd p)"

text \<open>\<open>total_value = sum(s.annual_value for s in sorted_skus)\<close>, for the dict
  \<open>valued\<close> that the first loop leaves.\<close>

definition abc_total :: "arith \<Rightarrow> (string \<times> SKUData) list \<Rightarrow> real" where
  "abc_total ar valued = py_sum ar (map (\<lambda>(code, sku). annual_value sku) (sort_desc valued))"

text \<open>The threshold walk over \<open>sorted_skus\<close>, started with the running
  \<open>cumulative\<close> and the three counters; it returns the records in the same order
  with their class set, and the counters.\<close>

fun abc_walk ::
  "arith \<Rightarrow> real \<Rightarrow> real \<Rightarrow> int \<times> int \<times> int \<Rightarrow> (string \<times> SKUData) list
     \<Rightarrow> (string \<times> SKUData) list \<times> (int \<times> int \<times> int)" where
  "abc_walk ar total_value cumulative (a_count, b_count, c_count) [] =
     ([], (a_count, b_count, c_count))"
| "abc_walk ar total_value cumulative (a_count, b_count, c_count) ((code, sku) # rest) =
     (let cumulative = py_add ar cumulative (annual_value sku);
          pct = py_div ar cumulative total_value
      in if pct \<le> ABC_A_THRESHOLD
         then (let (out, counts) = abc_walk ar total_value cumulative (a_count + 1, b_count, c_count) rest
               in ((code, sku\<lparr> abc_class := ''A'' \<rparr>) # out, counts))
         else if pct \<le> ABC_B_THRESHOLD
         then (let (out, counts) = abc_walk ar total_value cumulative (a_count, b_count + 1, c_count) rest
               in ((code, sku\<lparr> abc_class := ''B'' \<rparr>) # out, counts))
         else (let (out, counts) = abc_walk ar total_value cumulative (a_count, b_count, c_count + 1) rest
               in ((code, sku\<lparr> abc_class := ''C'' \<rparr>) # out, counts)))"

text \<open>The edge case after the walk: \<open>if a_count == 0 and sorted_skus\<close>. The class
  is assigned before it is compared with \<open>'B'\<close>, as in the source.\<close>

definition ensure_one_A ::
  "(string \<times> SKUData) list \<times> (int \<times> int \<times> int) \<Rightarrow> (string \<times> SKUData) list \<times> (int \<times> int \<times> int)" where
  "ensure_one_A r =
     (case r of (sorted_skus, (a_count, b_count, c_count)) \<Rightarrow>
        (case sorted_skus of
           [] \<Rightarrow> r
         | (code, sku) # rest \<Rightarrow>
             if a_count = 0
             then (let first = sku\<lparr> abc_class := ''A'' \<rparr>
                   in ((code, first) # rest,
                       (if abc_class first = ''B'' then (1, b_count - 1, c_count)
                        else (1, b_count, c_count - 1))))
             else r))"

text \<open>\<open>sorted_skus\<close> as \<open>compute_abc\<close> leaves it, for the dict \<open>valued\<close> that the
  first loop leaves: the records in descending order of annual value, with the
  class each object holds when the function returns.\<close>

definition abc_sorted :: "arith \<Rightarrow> (string \<times> SKUData) list \<Rightarrow> (string \<times> SKUData) list" where
  "abc_sorted ar valued =
     (let sorted_skus = sort_desc valued;
          total_value = abc_total ar valued
      in if total_value \<le> 0
         then map (\<lambda>(code, sku). (code, sku\<lparr> abc_class := ''C'' \<rparr>)) sorted_skus
         else fst (ensure_one_A (abc_walk ar total_value 0 (0, 0, 0) sorted_skus)))"

text \<open>The dict after the classification: its order is unchanged, and each key holds
  the object that \<open>sorted_skus\<close> holds under that key.\<close>

definition abc_dict :: "arith \<Rightarrow> (string \<times> SKUData) list \<Rightarrow> (string \<times> SKUData) list" where
  "abc_dict ar valued =
     (let sorted_skus = abc_sorted ar valued
      in map (\<lambda>(code, sku). (code, case map_of sorted_skus code of Some s \<Rightarrow> s | None \<Rightarrow> sku))
           valued)"

text \<open>\<open>compute_abc\<close>: the first loop, then the classification.\<close>

definition compute_abc ::
  "arith \<Rightarrow> (string \<times> SKUData) list \<Rightarrow> (string \<times> item) list \<Rightarrow> (string \<times> SKUData) list" where
  "compute_abc ar skus costs = abc_dict ar (abc_valued skus costs)"

section \<open>The pipeline (main, steps 1 to 4)\<close>


section \<open>The threshold walk in the words of the specification\<close>

text \<open>The class that the specification gives a record whose cumulative share of the
  total is \<open>pct\<close>: \<open>A\<close> while the share is at most 80%, \<open>B\<close> while at most 96%,
  else \<open>C\<close>.\<close>

definition spec_class :: "real \<Rightarrow> string" where
  "spec_class pct =
     (if pct \<le> ABC_A_THRESHOLD then ''A''
      else if pct \<le> ABC_B_THRESHOLD then ''B''
      else ''C'')"

text \<open>The running \<open>cumulative\<close> after the record at index \<open>i\<close> of a list (the
  additions start from \<open>0.0\<close>), and its share of a total as the walk computes it.\<close>

definition running :: "arith \<Rightarrow> (string \<times> SKUData) list \<Rightarrow> nat \<Rightarrow> real" where
  "running ar xs i = foldl (py_add ar) 0 (map value_of (take (Suc i) xs))"

definition share :: "arith \<Rightarrow> (string \<times> SKUData) list \<Rightarrow> nat \<Rightarrow> real" where
  "share ar valued i = py_div ar (running ar (sort_desc valued) i) (abc_total ar valued)"

text \<open>The walk over the sorted records with the rule of the specification alone, no
  counters and no edge case; the theorems compare \<open>abc_walk\<close> with it.\<close>

fun spec_walk :: "arith \<Rightarrow> real \<Rightarrow> real \<Rightarrow> (string \<times> SKUData) list \<Rightarrow> (string \<times> SKUData) list" where
  "spec_walk ar total_value cumulative [] = []"
| "spec_walk ar total_value cumulative ((code, sku) # rest) =
     (code, sku\<lparr> abc_class :=
              spec_class (py_div ar (py_add ar cumulative (annual_value sku)) total_value) \<rparr>)
       # spec_walk ar total_value (py_add ar cumulative (annual_value sku)) rest"

section \<open>Example inputs\<close>

text \<open>A histogram of five months, and a record of weekly velocity 15.\<close>

definition ex_five_months :: histogram where
  "ex_five_months =
     [(''2024-01'', 5), (''2024-02'', 5), (''2024-03'', 5), (''2024-04'', 5), (''2024-05'', 5)]"

definition ex_sku15 :: SKUData where
  "ex_sku15 = (new_SKUData ''S1'')\<lparr> avg_ship_wk := 15 \<rparr>"

text \<open>A SKU data row of the depletion sheet: code, beginning inventory 100, weekly
  shipments in column 16 and weeks on hand in column 17; and the record that the
  reader holds for such rows.\<close>

definition ex_depletion_row :: "string \<Rightarrow> real \<Rightarrow> real \<Rightarrow> row" where
  "ex_depletion_row code ship woh =
     [CText code, CNone, CNum 100 ''100''] @ replicate 13 CNone
       @ [CNum ship ''ship'', CNum woh ''woh'']"

definition ex_sku :: "string \<Rightarrow> string \<Rightarrow> real \<Rightarrow> real \<Rightarrow> real \<Rightarrow> SKUData" where
  "ex_sku code wh ship woh beg =
     (new_SKUData code)\<lparr> warehouse := wh, avg_ship_wk := ship, wks_on_hand := woh,
        beginning_inv := beg \<rparr>"

definition ex_dep_state :: dep_state where
  "ex_dep_state =
     \<lparr> dep_skus = [(''S1'', ex_sku ''S1'' ''Kent'' 3 4 100)],
       current_warehouse = ''Reno'', current_supplier = [] \<rparr>"

text \<open>An item master entry of a given cost, a SKU row of the item master (cost in
  column 9), a dimensions row (unit label, unit count, length, width, height in
  columns 2, 3, 6, 7, 8, weight in column 10), and a reader state with SKU \<open>S1\<close>
  open and the look-ahead flag armed.\<close>

definition ex_item :: "real \<Rightarrow> item" where
  "ex_item c =
     \<lparr> cost = c, description = [], item_weight_lbs = 0, item_length_in = 0,
       item_width_in = 0, item_height_in = 0, item_dim_uom_units = 1, item_supplier = [] \<rparr>"

definition ex_view_sku_row :: "string \<Rightarrow> real \<Rightarrow> row" where
  "ex_view_sku_row code c = [CText code, CNone] @ replicate 7 CNone @ [CNum c ''cost'']"

definition ex_dimension_row :: "real \<Rightarrow> real \<Rightarrow> real \<Rightarrow> row" where
  "ex_dimension_row l w h =
     [CNone, CNone, CText ''EA'', CNum 1 ''1'', CNone, CNone,
      CNum l ''l'', CNum w ''w'', CNum h ''h'', CNone, CNum 2 ''2'']"

definition ex_view_state :: view_state where
  "ex_view_state =
     \<lparr> vi_items = [(''S1'', ex_item 5)], current_sku = Some ''S1'', supplier_name = [],
       next_is_dimensions = True \<rparr>"

text \<open>Record sets for the ABC classifier, all with unit cost 1: three records of
  annual values 52, 364 and 104; two records of values 52 and 468; one record; and
  two records with no cost data at all.\<close>

definition ex_abc_skus :: "(string \<times> SKUData) list" where
  "ex_abc_skus =
     [(''S3'', ex_sku ''S3'' [] 1 0 0), (''S1'', ex_sku ''S1'' [] 7 0 0),
      (''S2'', ex_sku ''S2'' [] 2 0 0)]"

definition ex_abc_costs :: "(string \<times> item) list" where
  "ex_abc_costs = [(''S1'', ex_item 1), (''S2'', ex_item 1), (''S3'', ex_item 1)]"

definition ex_forced_skus :: "(string \<times> SKUData) list" where
  "ex_forced_skus = [(''S1'', ex_sku ''S1'' [] 1 0 0), (''S2'', ex_sku ''S2'' [] 9 0 0)]"

definition ex_single_skus :: "(string \<times> SKUData) list" where
  "ex_single_skus = [(''S1'', ex_sku ''S1'' [] 1 0 0)]"

definition ex_zero_skus :: "(string \<times> SKUData) list" where
  "ex_zero_skus = [(''S1'', ex_sku ''S1'' [] 1 0 0), (''S2'', ex_sku ''S2'' [] 0 0 0)]"

text \<open>A transaction row of an activity report (date in column 5, reference in
  column 7, quantity out in column 10), a SKU header row, and a reader state with
  SKU \<open>S1\<close> open.\<close>

definition ex_tx_row :: "cell \<Rightarrow> string \<Rightarrow> real \<Rightarrow> row" where
  "ex_tx_row dt ref qty =
     replicate 5 CNone @ [dt, CNone, CText ref, CNone, CNone, CNum qty ''qty'']"

definition ex_header_row :: "string \<Rightarrow> row" where
  "ex_header_row code = [CNone, CText code, CNone, CNone, CNum 1 ''1'']"

definition ex_act_state :: act_state where
  "ex_act_state =
     \<lparr> monthly_out = [], total_transactions = 0, filtered_adjustments = 0,
       filtered_moves = 0, act_current_sku = Some ''S1'', file_tx = 0, file_filtered = 0 \<rparr>"

section \<open>Theorems\<close>

subsection \<open>Helper lemmas on association lists\<close>

lemma map_of_update_same: "map_of (AList.update k v al) k = Some v"
  by (simp add: update_conv')

lemma set_update_subset: "set (AList.update k v al) \<subseteq> insert (k, v) (set al)"
  by (induction al) auto

lemma update_all_values:
  assumes "\<forall>p\<in>set al. P (snd p)" and "P v"
  shows "\<forall>p\<in>set (AList.update k v al). P (snd p)"
proof
  fix p assume "p \<in> set (AList.update k v al)"
  then have "p = (k, v) \<or> p \<in> set al" using set_update_subset [of k v al] by auto
  then show "P (snd p)" using assms by auto
qed

subsection \<open>XYZ heuristic fallback\<close>

lemma xyz_estimate_class:
  "xyz_class (xyz_classify (xyz_estimate sku)) =
     (if avg_ship_wk sku \<ge> 1 then ''Y'' else ''Z'')"
  by (simp add: xyz_classify_def xyz_estimate_def XYZ_X_THRESHOLD_def XYZ_Y_THRESHOLD_def)

lemma xyz_estimate_cv:
  "cv (xyz_classify (xyz_estimate sku)) =
     Some (if avg_ship_wk sku \<ge> 10 then Finite 0.6
           else if avg_ship_wk sku \<ge> 1 then Finite 0.8
           else if avg_ship_wk sku > 0 then Finite 1.2
           else Infinity)"
  by (simp add: xyz_classify_def xyz_estimate_def XYZ_X_THRESHOLD_def XYZ_Y_THRESHOLD_def)

lemma xyz_estimate_flag: "xyz_estimated (xyz_classify (xyz_estimate sku))"
  by (simp add: xyz_classify_def xyz_estimate_def XYZ_X_THRESHOLD_def XYZ_Y_THRESHOLD_def)

lemma ex_five_months_resolved:
  "resolve_monthly [(''S1'', ex_five_months)] ''S1'' = ex_five_months"
  by (simp add: resolve_monthly_def get_or_empty_def ex_five_months_def)

lemma ex_five_months_length: "length ex_five_months = 5"
  by (simp add: ex_five_months_def)

text \<open>
  Claim C1, as the code has it. For every SKU whose resolved monthly histogram has
  fewer than 6 months, one loop iteration of \<open>compute_xyz\<close> sets the estimated
  coefficient of variation by velocity tier (at least 10: 0.6; at least 1: 0.8;
  above 0: 1.2; otherwise the infinity sentinel), sets \<open>xyz_estimated\<close>, and
  classifies the SKU \<open>Y\<close> in the two upper tiers (0.6 and 0.8 are not below the
  \<open>X\<close> threshold 0.5) and \<open>Z\<close> in the two lower ones.
\<close>

theorem C1_xyz_estimate:
  assumes "length (resolve_monthly monthly_data code) < 6"
  shows "cv (xyz_one monthly_data code sku) =
           Some (if avg_ship_wk sku \<ge> 10 then Finite 0.6
                 else if avg_ship_wk sku \<ge> 1 then Finite 0.8
                 else if avg_ship_wk sku > 0 then Finite 1.2
                 else Infinity)
         \<and> xyz_estimated (xyz_one monthly_data code sku)
         \<and> xyz_class (xyz_one monthly_data code sku) =
             (if avg_ship_wk sku \<ge> 1 then ''Y'' else ''Z'')"
proof -
  have est: "xyz_one monthly_data code sku = xyz_classify (xyz_estimate sku)"
    using assms by (simp add: xyz_one_def MIN_MONTHS_FOR_XYZ_def Let_def)
  show ?thesis
    unfolding est using xyz_estimate_cv xyz_estimate_flag xyz_estimate_class by simp
qed

text \<open>Witness for C1: five months of history and weekly velocity 15 give the
  estimate 0.6, the flag, and class \<open>Y\<close>.\<close>

theorem C1_xyz_estimate_witness:
  "length (resolve_monthly [(''S1'', ex_five_months)] ''S1'') < 6
   \<and> cv (xyz_one [(''S1'', ex_five_months)] ''S1'' ex_sku15) = Some (Finite 0.6)
   \<and> xyz_estimated (xyz_one [(''S1'', ex_five_months)] ''S1'' ex_sku15)
   \<and> xyz_class (xyz_one [(''S1'', ex_five_months)] ''S1'' ex_sku15) = ''Y''"
proof -
  have h: "length (resolve_monthly [(''S1'', ex_five_months)] ''S1'') < 6"
    by (simp add: ex_five_months_resolved ex_five_months_length)
  have v: "avg_ship_wk ex_sku15 = 15"
    by (simp add: ex_sku15_def new_SKUData_def)
  show ?thesis
    using h C1_xyz_estimate [OF h, of ex_sku15] by (simp add: v)
qed

text \<open>Counterexample to C1 as stated: with exactly 5 months of history and weekly
  velocity 15 the estimate is 0.6, and the class is not \<open>X\<close>.\<close>

theorem C1_class_X_counterexample:
  "length (resolve_monthly [(''S1'', ex_five_months)] ''S1'') = 5
   \<and> avg_ship_wk ex_sku15 = 15
   \<and> cv (xyz_one [(''S1'', ex_five_months)] ''S1'' ex_sku15) = Some (Finite 0.6)
   \<and> xyz_class (xyz_one [(''S1'', ex_five_months)] ''S1'' ex_sku15) \<noteq> ''X''"
  by (simp add: xyz_one_def ex_five_months_resolved ex_five_months_length
      MIN_MONTHS_FOR_XYZ_def xyz_estimate_def xyz_classify_def
      XYZ_X_THRESHOLD_def XYZ_Y_THRESHOLD_def ex_sku15_def new_SKUData_def)

subsection \<open>Key resolution\<close>

lemma resolve_key_exact: "map_of d code = Some v \<Longrightarrow> resolve_key d code = Some v"
  by (simp add: resolve_key_def)

lemma resolve_key_appended:
  "map_of d code = None \<Longrightarrow> map_of d (rstrip_GT code) = None
     \<Longrightarrow> resolve_key d code = map_of d (code @ ''GT'')"
  by (simp add: resolve_key_def)

lemma resolve_key_absent:
  "map_of d code = None \<Longrightarrow> map_of d (rstrip_GT code) = None
     \<Longrightarrow> map_of d (code @ ''GT'') = None \<Longrightarrow> resolve_key d code = None"
  by (simp add: resolve_key_def)

text \<open>Stripping undoes appending only for a code that does not itself end in
  \<open>G\<close> or \<open>T\<close>.\<close>

lemma rstrip_GT_appended:
  assumes "code = [] \<or> (last code \<noteq> CHR ''G'' \<and> last code \<noteq> CHR ''T'')"
  shows "rstrip_GT (code @ ''GT'') = code"
proof (cases code rule: rev_cases)
  case Nil
  then show ?thesis by (simp add: rstrip_GT_def)
next
  case (snoc ys y)
  then show ?thesis using assms by (simp add: rstrip_GT_def)
qed

lemma resolve_key_stripped:
  assumes "code = [] \<or> (last code \<noteq> CHR ''G'' \<and> last code \<noteq> CHR ''T'')"
    and "map_of d (code @ ''GT'') = None" and "map_of d code = Some v"
  shows "resolve_key d (code @ ''GT'') = Some v"
  using assms(2,3) by (simp add: resolve_key_def rstrip_GT_appended [OF assms(1)])

text \<open>
  Claim C2, at the failing input. The second lookup uses \<open>rstrip('GT')\<close>, which
  removes every trailing \<open>G\<close> and \<open>T\<close>: the code \<open>BOLTGT\<close> is cut down to
  \<open>BOL\<close>, not to \<open>BOLT\<close>, so a mapping that holds the key \<open>BOLT\<close> only is not
  matched; the merge leaves the record untouched and the cost lookup of
  \<open>compute_abc\<close> falls back to 0.
\<close>

theorem C2_suffix_strip_misses:
  "rstrip_GT ''BOLTGT'' = ''BOL''
   \<and> resolve_key [(''BOLT'', it)] ''BOLTGT'' = None
   \<and> merge_one [(''BOLT'', it)] ''BOLTGT'' sku = sku
   \<and> unit_cost (abc_value [(''BOLT'', it)] ''BOLTGT'' sku) = 0"
  by (simp add: resolve_key_def rstrip_GT_def merge_one_def abc_value_def)

subsection \<open>Depletion merge\<close>

lemma merge_sighting_avg:
  "avg_ship_wk (merge_sighting ar e a w b r s en wh) = py_add ar (avg_ship_wk e) a"
  by (simp add: merge_sighting_def Let_def)

lemma merge_sighting_woh:
  "wks_on_hand (merge_sighting ar e a w b r s en wh) =
     (if a > py_sub ar (py_add ar (avg_ship_wk e) a) a then w else wks_on_hand e)"
  by (simp add: merge_sighting_def Let_def)

lemma merge_sighting_warehouse:
  "warehouse (merge_sighting ar e a w b r s en wh) =
     (if a > py_sub ar (py_add ar (avg_ship_wk e) a) a then wh else warehouse e)"
  by (simp add: merge_sighting_def Let_def)

text \<open>
  Claim C3. When a SKU data row repeats a code that the reader already holds, the
  weekly shipments of the row are added to the accumulated total, and
  \<open>weeks_on_hand\<close> and \<open>warehouse\<close> are overwritten by the new sighting if and
  only if its weekly shipments exceed the accumulated total minus the new value
  itself, the total being the one the addition has just produced (for shipments 3
  then 7: 7 exceeds 10 - 7 = 3). The statement holds for every rounding of the sum
  and of the difference.
\<close>

theorem C3_depletion_merge:
  assumes "map_of (dep_skus st) code = Some existing"
  shows "map_option avg_ship_wk (map_of (dep_skus (depletion_sku ar st code row)) code) =
           Some (py_add ar (avg_ship_wk existing) (num_at row 16 0))
         \<and> map_option wks_on_hand (map_of (dep_skus (depletion_sku ar st code row)) code) =
             Some (if num_at row 16 0
                        > py_sub ar (py_add ar (avg_ship_wk existing) (num_at row 16 0))
                            (num_at row 16 0)
                   then num_at row 17 0 else wks_on_hand existing)
         \<and> map_option warehouse (map_of (dep_skus (depletion_sku ar st code row)) code) =
             Some (if num_at row 16 0
                        > py_sub ar (py_add ar (avg_ship_wk existing) (num_at row 16 0))
                            (num_at row 16 0)
                   then current_warehouse st else warehouse existing)"
  using assms
  by (simp add: depletion_sku_def Let_def map_of_update_same merge_sighting_avg
      merge_sighting_woh merge_sighting_warehouse)

text \<open>Witness for C3: the record holds shipments 3 (weeks on hand 4, warehouse
  Kent); a second row with shipments 7 (weeks on hand 9, section Reno) gives the
  total 10 and, as 7 > 10 - 7, takes weeks on hand and warehouse from the second
  row. On these integers Python's sum and difference are exact.\<close>

theorem C3_depletion_merge_witness:
  "map_of (dep_skus ex_dep_state) ''S1'' = Some (ex_sku ''S1'' ''Kent'' 3 4 100)
   \<and> map_option avg_ship_wk
       (map_of (dep_skus (depletion_sku exact_arith ex_dep_state ''S1''
                            (ex_depletion_row ''S1'' 7 9))) ''S1'')
       = Some 10
   \<and> map_option wks_on_hand
       (map_of (dep_skus (depletion_sku exact_arith ex_dep_state ''S1''
                            (ex_depletion_row ''S1'' 7 9))) ''S1'')
       = Some 9
   \<and> map_option warehouse
       (map_of (dep_skus (depletion_sku exact_arith ex_dep_state ''S1''
                            (ex_depletion_row ''S1'' 7 9))) ''S1'')
       = Some ''Reno''"
proof -
  have h: "map_of (dep_skus ex_dep_state) ''S1'' = Some (ex_sku ''S1'' ''Kent'' 3 4 100)"
    by (simp add: ex_dep_state_def)
  have n16: "num_at (ex_depletion_row ''S1'' 7 9) 16 0 = 7"
    by (simp add: num_at_def ex_depletion_row_def nth_append)
  have n17: "num_at (ex_depletion_row ''S1'' 7 9) 17 0 = 9"
    by (simp add: num_at_def ex_depletion_row_def nth_append)
  have e: "avg_ship_wk (ex_sku ''S1'' ''Kent'' 3 4 100) = 3"
    by (simp add: ex_sku_def new_SKUData_def)
  have w: "current_warehouse ex_dep_state = ''Reno''"
    by (simp add: ex_dep_state_def)
  show ?thesis
    using h C3_depletion_merge [OF h, of exact_arith "ex_depletion_row ''S1'' 7 9"]
    by (simp add: n16 n17 e w exact_arith_def)
qed

text \<open>The same example through the whole reader: two rows of one SKU with
  shipments 3 and 7.\<close>

lemma parse_depletion_3_then_7:
  "parse_depletion exact_arith
     [[CText ''Warehouse: Kent''], ex_depletion_row ''S1'' 3 4,
      [CText ''Warehouse: Reno''], ex_depletion_row ''S1'' 7 9]
   = Inr [(''S1'', ex_sku ''S1'' ''Reno'' 10 9 200)]"
  by code_simp

subsection \<open>Item master: the dimensions row\<close>

lemma skip_empty: "\<not> list_ex (startswith []) skip_prefixes"
  by (simp add: skip_prefixes_def startswith_def)

lemma dimensions_row_items:
  "vi_items (dimensions_row st cur it row) =
     (if text_at row 2 \<noteq> [] \<and> length row > 3 \<and> is_number (row ! 3) \<and> num_at row 3 0 \<noteq> 0
         \<and> num_at row 6 0 > 0 \<and> item_length_in it = 0
      then AList.update cur
             (it\<lparr> item_length_in := num_at row 6 0, item_width_in := num_at row 7 0,
                  item_height_in := num_at row 8 0, item_weight_lbs := num_at row 10 0,
                  item_dim_uom_units := num_at row 3 0 \<rparr>)
             (vi_items st)
      else vi_items st)"
  by (cases "row ! 3") (auto simp add: dimensions_row_def Let_def)

lemma dimensions_row_rest:
  "\<not> next_is_dimensions (dimensions_row st cur it row)
   \<and> current_sku (dimensions_row st cur it row) = current_sku st
   \<and> supplier_name (dimensions_row st cur it row) = supplier_name st"
  by (simp add: dimensions_row_def Let_def)

text \<open>
  Claim C5, as the code has it. In the item master reader, a row with an empty
  first cell, while a SKU is open and the look-ahead flag is armed, populates the
  open SKU's dimension fields exactly when the unit-of-measure label is non-empty,
  the unit count is a non-zero number, the length reads positive, and the stored
  length is still 0 (so the first dimensions row of a SKU wins); width and height
  are copied as read and are not tested. The flag is consumed either way.
\<close>

theorem C5_dimensions_row:
  assumes "row \<noteq> []" and "strip (text_of (row ! 0)) = []"
    and "current_sku st = Some cur" and "cur \<noteq> []"
    and "map_of (vi_items st) cur = Some it"
    and "next_is_dimensions st"
  shows "view_item_row st row = Inr (dimensions_row st cur it row)
     \<and> vi_items (dimensions_row st cur it row) =
         (if text_at row 2 \<noteq> [] \<and> length row > 3 \<and> is_number (row ! 3) \<and> num_at row 3 0 \<noteq> 0
             \<and> num_at row 6 0 > 0 \<and> item_length_in it = 0
          then AList.update cur
                 (it\<lparr> item_length_in := num_at row 6 0, item_width_in := num_at row 7 0,
                      item_height_in := num_at row 8 0, item_weight_lbs := num_at row 10 0,
                      item_dim_uom_units := num_at row 3 0 \<rparr>)
                 (vi_items st)
          else vi_items st)
     \<and> \<not> next_is_dimensions (dimensions_row st cur it row)"
proof -
  have "view_item_row st row = Inr (dimensions_row st cur it row)"
    using assms by (simp add: view_item_row_def skip_empty)
  then show ?thesis
    using dimensions_row_items dimensions_row_rest by simp
qed

text \<open>Witness for C5: SKU \<open>S1\<close> is open with no dimensions yet; a dimensions row
  6 by 7 by 8 populates them.\<close>

theorem C5_dimensions_row_witness:
  "ex_dimension_row 6 7 8 \<noteq> []
   \<and> strip (text_of (ex_dimension_row 6 7 8 ! 0)) = []
   \<and> current_sku ex_view_state = Some ''S1''
   \<and> map_of (vi_items ex_view_state) ''S1'' = Some (ex_item 5)
   \<and> next_is_dimensions ex_view_state
   \<and> view_item_row ex_view_state (ex_dimension_row 6 7 8)
       = Inr (dimensions_row ex_view_state ''S1'' (ex_item 5) (ex_dimension_row 6 7 8))
   \<and> vi_items (dimensions_row ex_view_state ''S1'' (ex_item 5) (ex_dimension_row 6 7 8))
       = [(''S1'', (ex_item 5)\<lparr> item_length_in := 6, item_width_in := 7,
                                 item_height_in := 8, item_weight_lbs := 2,
                                 item_dim_uom_units := 1 \<rparr>)]"
proof -
  have h1: "ex_dimension_row 6 7 8 \<noteq> []" by (simp add: ex_dimension_row_def)
  have h2: "strip (text_of (ex_dimension_row 6 7 8 ! 0)) = []"
    by (simp add: ex_dimension_row_def strip_def)
  have h3: "current_sku ex_view_state = Some ''S1''" by (simp add: ex_view_state_def)
  have h4: "map_of (vi_items ex_view_state) ''S1'' = Some (ex_item 5)"
    by (simp add: ex_view_state_def)
  have h5: "next_is_dimensions ex_view_state" by (simp add: ex_view_state_def)
  have h6: "''S1'' \<noteq> []" by simp
  have c: "text_at (ex_dimension_row 6 7 8) 2 \<noteq> [] \<and> length (ex_dimension_row 6 7 8) > 3
      \<and> is_number (ex_dimension_row 6 7 8 ! 3) \<and> num_at (ex_dimension_row 6 7 8) 3 0 = 1
      \<and> num_at (ex_dimension_row 6 7 8) 6 0 = 6 \<and> num_at (ex_dimension_row 6 7 8) 7 0 = 7
      \<and> num_at (ex_dimension_row 6 7 8) 8 0 = 8 \<and> num_at (ex_dimension_row 6 7 8) 10 0 = 2
      \<and> item_length_in (ex_item 5) = 0"
    by code_simp
  have u: "AList.update ''S1'' v (vi_items ex_view_state) = [(''S1'', v)]" for v
    by (simp add: ex_view_state_def)
  show ?thesis
    using h1 h2 h3 h4 h5 C5_dimensions_row [OF h1 h2 h3 h6 h4 h5] by (simp add: c u)
qed

text \<open>Counterexample to C5 as stated: a dimensions row whose width and height read
  0 still populates the open SKU (length 5, width 0, height 0, weight 2).\<close>

theorem C5_width_height_counterexample:
  "\<not> 0 < num_at (ex_dimension_row 5 0 0) 7 0
   \<and> \<not> 0 < num_at (ex_dimension_row 5 0 0) 8 0
   \<and> parse_view_item
       [[ex_view_sku_row ''S1'' 5, [CText ''Dimensional UOM''], ex_dimension_row 5 0 0]]
     = Inr [(''S1'', (ex_item 5)\<lparr> item_length_in := 5, item_width_in := 0,
                                   item_height_in := 0, item_weight_lbs := 2,
                                   item_dim_uom_units := 1 \<rparr>)]"
  by code_simp

text \<open>A unit label that is only a no-break space reads as empty after
  \<open>strip()\<close>, and the row populates nothing.\<close>

lemma dimensions_row_blank_label:
  "text_at ((ex_dimension_row 6 7 8)[2 := CText [CHR 0xA0]]) 2 = []
   \<and> vi_items (dimensions_row ex_view_state ''S1'' (ex_item 5)
                ((ex_dimension_row 6 7 8)[2 := CText [CHR 0xA0]]))
       = vi_items ex_view_state"
  by code_simp

subsection \<open>Item master: every cost is positive\<close>






subsection \<open>ABC classification: the walk\<close>

lemma abc_walk_fst: "fst (abc_walk ar T cum cnt xs) = spec_walk ar T cum xs"
proof (induction ar T cum cnt xs rule: abc_walk.induct)
  case (1 ar T cum a b c)
  show ?case by simp
next
  case (2 ar T cum a b c code sku rest)
  then show ?case
    by (simp add: Let_def spec_class_def case_prod_beta)
qed

lemma abc_walk_a_count:
  "fst (snd (abc_walk ar T cum (a, b, c) xs)) =
     a + int (length (filter (\<lambda>(code, sku). abc_class sku = ''A'') (spec_walk ar T cum xs)))"
proof (induction ar T cum "(a, b, c)" xs arbitrary: a b c rule: abc_walk.induct)
  case (1 ar T cum a b c)
  show ?case by simp
next
  case (2 ar T cum a b c code sku rest)
  then show ?case
    by (simp add: Let_def spec_class_def case_prod_beta)
qed

lemma spec_walk_length [simp]: "length (spec_walk ar T cum xs) = length xs"
  by (induction ar T cum xs rule: spec_walk.induct) simp_all

lemma spec_walk_nth:
  "i < length xs \<Longrightarrow>
   spec_walk ar T cum xs ! i =
     (fst (xs ! i),
      (snd (xs ! i))\<lparr> abc_class :=
         spec_class (py_div ar (foldl (py_add ar) cum (map value_of (take (Suc i) xs))) T) \<rparr>)"
proof (induction ar T cum xs arbitrary: i rule: spec_walk.induct)
  case (1 ar T cum)
  then show ?case by simp
next
  case (2 ar T cum code sku rest)
  show ?case
  proof (cases i)
    case 0
    then show ?thesis by (simp add: value_of_def)
  next
    case (Suc k)
    with 2 show ?thesis by (simp add: value_of_def)
  qed
qed

lemma value_of_conv: "(\<lambda>(code, sku). annual_value sku) = value_of"
  by (simp add: value_of_def fun_eq_iff)

lemma neg_value_of_conv: "(\<lambda>(code, sku). - annual_value sku) = (\<lambda>p. - value_of p)"
  by (simp add: value_of_def fun_eq_iff)

lemma sort_desc_sorted: "sorted (map (\<lambda>p. - value_of p) (sort_desc xs))"
  unfolding sort_desc_def neg_value_of_conv by (rule sorted_sort_key)

lemma sort_desc_length [simp]: "length (sort_desc xs) = length xs"
  by (simp add: sort_desc_def)

lemma sort_desc_set [simp]: "set (sort_desc xs) = set xs"
  by (simp add: sort_desc_def)

lemma sort_desc_stable:
  "filter (\<lambda>p. value_of p = v) (sort_desc xs) = filter (\<lambda>p. value_of p = v) xs"
proof -
  have "filter (\<lambda>p. - value_of p = - v) (sort_key (\<lambda>p. - value_of p) xs)
      = filter (\<lambda>p. - value_of p = - v) xs"
    by (rule sort_key_stable)
  then show ?thesis by (simp add: sort_desc_def neg_value_of_conv)
qed

text \<open>In the descending order an earlier value is at least a later one.\<close>

lemma sort_desc_nth_mono:
  assumes "i \<le> j" and "j < length xs"
  shows "value_of (sort_desc xs ! j) \<le> value_of (sort_desc xs ! i)"
proof -
  have "map (\<lambda>p. - value_of p) (sort_desc xs) ! i \<le> map (\<lambda>p. - value_of p) (sort_desc xs) ! j"
    using sort_desc_sorted [of xs] assms by (intro sorted_nth_mono) simp_all
  then show ?thesis using assms by simp
qed

lemma abc_total_conv: "abc_total ar valued = py_sum ar (map value_of (sort_desc valued))"
  by (simp add: abc_total_def value_of_conv)

lemma thresholds_order: "ABC_A_THRESHOLD \<le> ABC_B_THRESHOLD"
  by (simp add: ABC_A_THRESHOLD_def ABC_B_THRESHOLD_def)

lemma spec_class_A_iff: "spec_class pct = ''A'' \<longleftrightarrow> pct \<le> ABC_A_THRESHOLD"
  by (simp add: spec_class_def)

lemma spec_class_C_iff: "spec_class pct = ''C'' \<longleftrightarrow> ABC_B_THRESHOLD < pct"
  using thresholds_order by (auto simp add: spec_class_def)

lemma spec_class_cases: "spec_class pct \<in> {''A'', ''B'', ''C''}"
  by (simp add: spec_class_def)

lemma spec_walk_class_nth:
  "i < length valued \<Longrightarrow>
   spec_walk ar (abc_total ar valued) 0 (sort_desc valued) ! i =
     (fst (sort_desc valued ! i),
      (snd (sort_desc valued ! i))\<lparr> abc_class := spec_class (share ar valued i) \<rparr>)"
  by (simp add: spec_walk_nth share_def running_def)

lemma spec_walk_no_A:
  "list_all (\<lambda>(code, sku). abc_class sku \<noteq> ''A'')
     (spec_walk ar (abc_total ar valued) 0 (sort_desc valued))
   \<longleftrightarrow> (\<forall>k. k < length valued \<longrightarrow> ABC_A_THRESHOLD < share ar valued k)"
proof -
  let ?w = "spec_walk ar (abc_total ar valued) 0 (sort_desc valued)"
  have "list_all (\<lambda>(code, sku). abc_class sku \<noteq> ''A'') ?w
      \<longleftrightarrow> (\<forall>k. k < length ?w \<longrightarrow> abc_class (snd (?w ! k)) \<noteq> ''A'')"
    by (simp add: list_all_length case_prod_beta)
  also have "\<dots> \<longleftrightarrow> (\<forall>k. k < length valued \<longrightarrow> spec_class (share ar valued k) \<noteq> ''A'')"
    by (simp add: spec_walk_class_nth)
  also have "\<dots> \<longleftrightarrow> (\<forall>k. k < length valued \<longrightarrow> ABC_A_THRESHOLD < share ar valued k)"
    by (simp add: spec_class_A_iff not_le)
  finally show ?thesis .
qed

lemma ensure_one_A_fst:
  "fst (ensure_one_A (w, (a, b, c))) =
     (case w of [] \<Rightarrow> []
      | (code, sku) # rest \<Rightarrow> if a = 0 then (code, sku\<lparr> abc_class := ''A'' \<rparr>) # rest else w)"
  by (simp add: ensure_one_A_def Let_def split: list.splits prod.splits)

lemma abc_sorted_positive:
  assumes "0 < abc_total ar valued"
  shows "abc_sorted ar valued =
     (let w = spec_walk ar (abc_total ar valued) 0 (sort_desc valued)
      in if list_all (\<lambda>(code, sku). abc_class sku \<noteq> ''A'') w
         then w[0 := (fst (w ! 0), (snd (w ! 0))\<lparr> abc_class := ''A'' \<rparr>)]
         else w)"
proof -
  let ?T = "abc_total ar valued"
  let ?S = "sort_desc valued"
  obtain w a b c where walk: "abc_walk ar ?T 0 (0, 0, 0) ?S = (w, (a, b, c))"
    by (metis prod_cases3)
  have w: "w = spec_walk ar ?T 0 ?S"
    using abc_walk_fst [of ar ?T 0 "(0, 0, 0)" ?S] walk by simp
  have a: "a = int (length (filter (\<lambda>(code, sku). abc_class sku = ''A'') w))"
    using abc_walk_a_count [of ar ?T 0 0 0 0 ?S] walk w by simp
  have a0: "a = 0 \<longleftrightarrow> list_all (\<lambda>(code, sku). abc_class sku \<noteq> ''A'') w"
    unfolding a by (auto simp add: list_all_iff filter_empty_conv)
  have "abc_sorted ar valued = fst (ensure_one_A (w, (a, b, c)))"
    using assms walk by (simp add: abc_sorted_def Let_def)
  also have "\<dots> = (if list_all (\<lambda>(code, sku). abc_class sku \<noteq> ''A'') w
         then w[0 := (fst (w ! 0), (snd (w ! 0))\<lparr> abc_class := ''A'' \<rparr>)]
         else w)"
    unfolding ensure_one_A_fst a0 by (cases w) auto
  finally show ?thesis
    unfolding w by (simp add: Let_def)
qed

lemma abc_sorted_nonpositive:
  "\<not> 0 < abc_total ar valued \<Longrightarrow>
   abc_sorted ar valued =
     map (\<lambda>(code, sku). (code, sku\<lparr> abc_class := ''C'' \<rparr>)) (sort_desc valued)"
  by (simp add: abc_sorted_def Let_def)

lemma abc_sorted_length: "length (abc_sorted ar valued) = length valued"
proof (cases "0 < abc_total ar valued")
  case True
  then show ?thesis
    by (simp add: abc_sorted_positive Let_def)
next
  case False
  then show ?thesis by (simp add: abc_sorted_def Let_def)
qed

text \<open>The class of every record when the total is positive: the class of its
  share, except that the first record is \<open>A\<close> when no share is within 80%.\<close>

lemma abc_sorted_nth:
  assumes T: "0 < abc_total ar valued"
    and i: "i < length valued"
  shows "abc_sorted ar valued ! i =
     (fst (sort_desc valued ! i),
      (snd (sort_desc valued ! i))\<lparr> abc_class :=
         (if i = 0 \<and> (\<forall>k. k < length valued \<longrightarrow> ABC_A_THRESHOLD < share ar valued k)
          then ''A'' else spec_class (share ar valued i)) \<rparr>)"
proof -
  let ?w = "spec_walk ar (abc_total ar valued) 0 (sort_desc valued)"
  let ?noA = "\<forall>k. k < length valued \<longrightarrow> ABC_A_THRESHOLD < share ar valued k"
  have wn: "\<And>j. j < length valued \<Longrightarrow>
      ?w ! j = (fst (sort_desc valued ! j),
                (snd (sort_desc valued ! j))\<lparr> abc_class := spec_class (share ar valued j) \<rparr>)"
    by (rule spec_walk_class_nth)
  have R: "abc_sorted ar valued =
      (if ?noA then ?w[0 := (fst (?w ! 0), (snd (?w ! 0))\<lparr> abc_class := ''A'' \<rparr>)] else ?w)"
    using T by (simp add: abc_sorted_positive Let_def spec_walk_no_A)
  show ?thesis
  proof (cases ?noA)
    case True
    have RT: "abc_sorted ar valued =
        ?w[0 := (fst (?w ! 0), (snd (?w ! 0))\<lparr> abc_class := ''A'' \<rparr>)]"
      by (subst R) (rule if_P [OF True])
    show ?thesis
    proof (cases "i = 0")
      case i0: True
      have "abc_sorted ar valued ! 0 = (fst (?w ! 0), (snd (?w ! 0))\<lparr> abc_class := ''A'' \<rparr>)"
        using i i0 by (simp add: RT)
      then show ?thesis using True i0 i wn [of 0] by simp
    next
      case False
      have "abc_sorted ar valued ! i = ?w ! i" using False by (simp add: RT)
      then show ?thesis using False wn [OF i] by simp
    qed
  next
    case False
    have "abc_sorted ar valued = ?w"
      by (subst R) (rule if_not_P [OF False])
    then have e: "abc_sorted ar valued ! i =
        (fst (sort_desc valued ! i),
         (snd (sort_desc valued ! i))\<lparr> abc_class := spec_class (share ar valued i) \<rparr>)"
      using wn [OF i] by simp
    have "\<not> (i = 0 \<and> ?noA)" using False by blast
    then have c: "(if i = 0 \<and> ?noA then ''A'' else spec_class (share ar valued i))
        = spec_class (share ar valued i)"
      by (rule if_not_P)
    show ?thesis by (simp only: e c)
  qed
qed

text \<open>Some record is class \<open>A\<close> when the total is positive.\<close>

lemma abc_sorted_has_A:
  assumes T: "0 < abc_total ar valued" and ne: "valued \<noteq> []"
  shows "\<exists>i. i < length valued \<and> abc_class (snd (abc_sorted ar valued ! i)) = ''A''"
proof (cases "\<forall>k. k < length valued \<longrightarrow> ABC_A_THRESHOLD < share ar valued k")
  case True
  have len: "0 < length valued" using ne by simp
  have "abc_class (snd (abc_sorted ar valued ! 0)) = ''A''"
    using abc_sorted_nth [OF T len] True by simp
  then show ?thesis using len by blast
next
  case False
  then obtain k where k: "k < length valued" "share ar valued k \<le> ABC_A_THRESHOLD"
    by (auto simp add: not_less)
  have "abc_class (snd (abc_sorted ar valued ! k)) = ''A''"
    using abc_sorted_nth [OF T k(1)] False k(2) by (simp add: spec_class_A_iff)
  then show ?thesis using k(1) by blast
qed

text \<open>Monotone sums: a run of values that are not negative does not decrease the
  running sum, one of values that are not positive does not increase it.\<close>

lemma foldl_add_up:
  assumes "\<forall>x y. 0 \<le> y \<longrightarrow> x \<le> py_add ar x y" and "\<forall>y\<in>set ys. 0 \<le> y"
  shows "c \<le> foldl (py_add ar) c ys"
  using assms(2)
proof (induction ys arbitrary: c)
  case Nil
  then show ?case by simp
next
  case (Cons y ys)
  have "c \<le> py_add ar c y" using assms(1) Cons.prems by simp
  also have "\<dots> \<le> foldl (py_add ar) (py_add ar c y) ys"
    using Cons.prems by (intro Cons.IH) simp
  finally show ?case by simp
qed

lemma foldl_add_down:
  assumes "\<forall>x y. y \<le> 0 \<longrightarrow> py_add ar x y \<le> x" and "\<forall>y\<in>set ys. y \<le> 0"
  shows "foldl (py_add ar) c ys \<le> c"
  using assms(2)
proof (induction ys arbitrary: c)
  case Nil
  then show ?case by simp
next
  case (Cons y ys)
  have "foldl (py_add ar) (py_add ar c y) ys \<le> py_add ar c y"
    using Cons.prems by (intro Cons.IH) simp
  also have "\<dots> \<le> c" using assms(1) Cons.prems by simp
  finally show ?case by simp
qed

lemma running_split:
  assumes "i \<le> j"
  shows "running ar xs j =
     foldl (py_add ar) (running ar xs i) (map value_of (take (j - i) (drop (Suc i) xs)))"
proof -
  have "take (Suc j) xs = take (Suc i) xs @ take (j - i) (drop (Suc i) xs)"
    using assms take_add [of "Suc i" "j - i" xs] by simp
  then show ?thesis by (simp add: running_def)
qed

text \<open>With monotone arithmetic, a share that is beyond a threshold stays beyond it
  along the descending order, when no value is negative or when the share of the
  last record is beyond 96%.\<close>

lemma share_mono:
  assumes mono: "monotone_arith ar"
    and T: "0 < abc_total ar valued"
    and last: "(\<forall>p\<in>set valued. 0 \<le> value_of p)
               \<or> ABC_B_THRESHOLD < share ar valued (length valued - 1)"
    and ij: "i \<le> j" "j < length valued"
    and t: "t \<le> ABC_B_THRESHOLD"
    and above: "t < share ar valued i"
  shows "t < share ar valued j"
proof -
  let ?S = "sort_desc valued"
  let ?n = "length valued"
  have up: "\<forall>x y. 0 \<le> y \<longrightarrow> x \<le> py_add ar x y"
    and down: "\<forall>x y. y \<le> 0 \<longrightarrow> py_add ar x y \<le> x"
    and quot: "\<forall>x y t. 0 < t \<and> x \<le> y \<longrightarrow> py_div ar x t \<le> py_div ar y t"
    using mono by (simp_all add: monotone_arith_def)
  show ?thesis
  proof (cases "0 \<le> value_of (?S ! j)")
    case True
    have "\<forall>y\<in>set (map value_of (take (j - i) (drop (Suc i) ?S))). 0 \<le> y"
    proof
      fix y assume "y \<in> set (map value_of (take (j - i) (drop (Suc i) ?S)))"
      then obtain k where k: "k < j - i" "y = value_of (?S ! (Suc i + k))"
        using ij by (auto simp add: in_set_conv_nth)
      have "value_of (?S ! j) \<le> value_of (?S ! (Suc i + k))"
        using k(1) ij by (intro sort_desc_nth_mono) simp_all
      then show "0 \<le> y" using True k(2) by simp
    qed
    then have "running ar ?S i \<le> running ar ?S j"
      unfolding running_split [OF ij(1)] by (rule foldl_add_up [OF up])
    then have "share ar valued i \<le> share ar valued j"
      using quot T by (simp add: share_def)
    then show ?thesis using above by simp
  next
    case False
    have "?S ! j \<in> set ?S" using ij by (intro nth_mem) simp
    then have "\<not> (\<forall>p\<in>set valued. 0 \<le> value_of p)" using False by auto
    then have last': "ABC_B_THRESHOLD < share ar valued (?n - 1)" using last by blast
    have j': "j \<le> ?n - 1" using ij by simp
    have "\<forall>y\<in>set (map value_of (take (?n - 1 - j) (drop (Suc j) ?S))). y \<le> 0"
    proof
      fix y assume "y \<in> set (map value_of (take (?n - 1 - j) (drop (Suc j) ?S)))"
      then obtain k where k: "k < ?n - 1 - j" "y = value_of (?S ! (Suc j + k))"
        by (auto simp add: in_set_conv_nth)
      have "value_of (?S ! (Suc j + k)) \<le> value_of (?S ! j)"
        using k(1) by (intro sort_desc_nth_mono) simp_all
      then show "y \<le> 0" using False k(2) by simp
    qed
    then have "running ar ?S (?n - 1) \<le> running ar ?S j"
      unfolding running_split [OF j'] by (rule foldl_add_down [OF down])
    then have "share ar valued (?n - 1) \<le> share ar valued j"
      using quot T by (simp add: share_def)
    then show ?thesis using last' t by simp
  qed
qed

lemma exact_arith_monotone: "monotone_arith exact_arith"
  by (simp add: monotone_arith_def exact_arith_def divide_right_mono)

text \<open>The records of \<open>sorted_skus\<close> are those of the dict, with a class set.\<close>

lemma abc_sorted_elem_nth:
  assumes "i < length valued"
  shows "\<exists>cls. abc_sorted ar valued ! i =
           (fst (sort_desc valued ! i), (snd (sort_desc valued ! i))\<lparr> abc_class := cls \<rparr>)"
proof (cases "0 < abc_total ar valued")
  case True
  then show ?thesis using abc_sorted_nth [OF True assms] by blast
next
  case False
  then have "abc_sorted ar valued ! i =
           (fst (sort_desc valued ! i), (snd (sort_desc valued ! i))\<lparr> abc_class := ''C'' \<rparr>)"
    using assms by (simp add: abc_sorted_nonpositive case_prod_beta)
  then show ?thesis by (rule exI)
qed

lemma abc_sorted_keys: "map fst (abc_sorted ar valued) = map fst (sort_desc valued)"
proof (rule nth_equalityI)
  show "length (map fst (abc_sorted ar valued)) = length (map fst (sort_desc valued))"
    by (simp add: abc_sorted_length)
next
  fix i assume "i < length (map fst (abc_sorted ar valued))"
  then have i: "i < length valued" by (simp add: abc_sorted_length)
  from abc_sorted_elem_nth [OF i, of ar]
  show "map fst (abc_sorted ar valued) ! i = map fst (sort_desc valued) ! i"
    using i by (auto simp add: abc_sorted_length)
qed


lemma abc_sorted_key_set: "fst ` set (abc_sorted ar valued) = fst ` set valued"
proof -
  have "set (map fst (abc_sorted ar valued)) = set (map fst (sort_desc valued))"
    by (simp only: abc_sorted_keys)
  then show ?thesis by simp
qed

lemma abc_sorted_distinct:
  assumes "distinct (map fst valued)"
  shows "distinct (map fst (abc_sorted ar valued))"
proof -
  have "distinct (map fst (sort_desc valued)) \<longleftrightarrow> distinct (map fst valued)"
    by (simp add: distinct_map sort_desc_def)
  then show ?thesis using assms by (simp add: abc_sorted_keys)
qed

text \<open>The dict after the classification holds the records of \<open>sorted_skus\<close>.\<close>

lemma abc_dict_elem:
  assumes "p \<in> set (abc_dict ar valued)"
  shows "p \<in> set (abc_sorted ar valued)"
proof -
  from assms obtain code sku where cs: "(code, sku) \<in> set valued"
    "p = (code, case map_of (abc_sorted ar valued) code of Some s \<Rightarrow> s | None \<Rightarrow> sku)"
    by (auto simp add: abc_dict_def Let_def)
  have "code \<in> fst ` set (abc_sorted ar valued)"
    using cs(1) by (simp add: abc_sorted_key_set) force
  then obtain s where s: "map_of (abc_sorted ar valued) code = Some s"
    by (metis map_of_eq_None_iff not_Some_eq)
  then have "(code, s) \<in> set (abc_sorted ar valued)" by (rule map_of_SomeD)
  then show ?thesis using cs(2) s by simp
qed

lemma abc_dict_set:
  assumes "distinct (map fst valued)"
  shows "set (abc_dict ar valued) = set (abc_sorted ar valued)"
proof
  show "set (abc_dict ar valued) \<subseteq> set (abc_sorted ar valued)"
    using abc_dict_elem by blast
next
  show "set (abc_sorted ar valued) \<subseteq> set (abc_dict ar valued)"
  proof
    fix p assume p: "p \<in> set (abc_sorted ar valued)"
    obtain code s where cs: "p = (code, s)" by (cases p)
    have d: "distinct (map fst (abc_sorted ar valued))"
      using assms by (rule abc_sorted_distinct)
    have m: "map_of (abc_sorted ar valued) code = Some s"
      using d p cs by simp
    have "code \<in> fst ` set valued"
      using p cs abc_sorted_key_set [of ar valued] by force
    then obtain sku where "(code, sku) \<in> set valued" by auto
    then have "(code, case map_of (abc_sorted ar valued) code of Some s \<Rightarrow> s | None \<Rightarrow> sku)
        \<in> set (abc_dict ar valued)"
      by (force simp add: abc_dict_def Let_def)
    then show "p \<in> set (abc_dict ar valued)" using m cs by simp
  qed
qed


subsection \<open>C4: the annual consumption value\<close>







subsection \<open>ABC classification: the claims\<close>

text \<open>
  In the three theorems that follow, \<open>valued\<close> is the dict as the first loop of
  \<open>compute_abc\<close> leaves it (\<open>compute_abc ar skus costs = abc_dict ar (abc_valued
  skus costs)\<close>), whatever the annual values are, and \<open>ar\<close> is the arithmetic of
  the interpreter, whatever its rounding: \<open>abc_total ar valued\<close> is the
  \<open>total_value\<close> that the code tests, and \<open>share ar valued i\<close> is the \<open>pct\<close>
  that the walk computes for the record at index \<open>i\<close> of \<open>sorted_skus\<close>.
\<close>

text \<open>Classes are monotone along the descending order when the arithmetic is
  monotone and no value is negative, or the last share is beyond 96%.\<close>

lemma abc_sorted_monotone:
  assumes mono: "monotone_arith ar"
    and T: "0 < abc_total ar valued"
    and last: "(\<forall>p\<in>set valued. 0 \<le> value_of p)
               \<or> ABC_B_THRESHOLD < share ar valued (length valued - 1)"
    and ij: "i \<le> j" "j < length valued"
  shows "(abc_class (snd (abc_sorted ar valued ! j)) = ''A''
            \<longrightarrow> abc_class (snd (abc_sorted ar valued ! i)) = ''A'')
       \<and> (abc_class (snd (abc_sorted ar valued ! i)) = ''C''
            \<longrightarrow> abc_class (snd (abc_sorted ar valued ! j)) = ''C'')"
proof -
  define none where "none \<longleftrightarrow> (\<forall>k. k < length valued \<longrightarrow> ABC_A_THRESHOLD < share ar valued k)"
  have i: "i < length valued" using ij by simp
  have ci: "abc_class (snd (abc_sorted ar valued ! i)) =
      (if i = 0 \<and> none then ''A'' else spec_class (share ar valued i))"
    by (simp add: abc_sorted_nth [OF T i] none_def)
  have cj: "abc_class (snd (abc_sorted ar valued ! j)) =
      (if j = 0 \<and> none then ''A'' else spec_class (share ar valued j))"
    by (simp add: abc_sorted_nth [OF T ij(2)] none_def)
  have up: "\<And>t. t \<le> ABC_B_THRESHOLD \<Longrightarrow> t < share ar valued i \<Longrightarrow> t < share ar valued j"
    using share_mono [OF mono T last ij] by blast
  have a: "abc_class (snd (abc_sorted ar valued ! j)) = ''A''
            \<longrightarrow> abc_class (snd (abc_sorted ar valued ! i)) = ''A''"
  proof
    assume aj: "abc_class (snd (abc_sorted ar valued ! j)) = ''A''"
    show "abc_class (snd (abc_sorted ar valued ! i)) = ''A''"
    proof (cases "j = 0 \<and> none")
      case True
      then have "i = 0" using ij by simp
      then show ?thesis using True ci by simp
    next
      case False
      then have "spec_class (share ar valued j) = ''A''" using aj cj by auto
      then have sj: "share ar valued j \<le> ABC_A_THRESHOLD" by (simp add: spec_class_A_iff)
      have "\<not> ABC_A_THRESHOLD < share ar valued i"
        using up [OF thresholds_order] sj by fastforce
      then have "spec_class (share ar valued i) = ''A''" by (simp add: spec_class_A_iff)
      then show ?thesis using ci by simp
    qed
  qed
  have c: "abc_class (snd (abc_sorted ar valued ! i)) = ''C''
            \<longrightarrow> abc_class (snd (abc_sorted ar valued ! j)) = ''C''"
  proof
    assume c_i: "abc_class (snd (abc_sorted ar valued ! i)) = ''C''"
    have not_forced: "\<not> (i = 0 \<and> none)" using c_i ci by auto
    then have "spec_class (share ar valued i) = ''C''" using c_i ci by auto
    then have si: "ABC_B_THRESHOLD < share ar valued i" by (simp add: spec_class_C_iff)
    have sj: "ABC_B_THRESHOLD < share ar valued j" using up [OF order_refl si] .
    have "\<not> (j = 0 \<and> none)" using not_forced ij by auto
    then have "abc_class (snd (abc_sorted ar valued ! j)) = spec_class (share ar valued j)"
      using cj by auto
    then show "abc_class (snd (abc_sorted ar valued ! j)) = ''C''"
      using sj by (simp add: spec_class_C_iff)
  qed
  show ?thesis using a c by simp
qed

text \<open>With a positive total the first record is class \<open>A\<close> exactly when its
  share is within 80% or no record's is.\<close>

lemma abc_sorted_head:
  assumes T: "0 < abc_total ar valued" and ne: "valued \<noteq> []"
  shows "abc_class (snd (abc_sorted ar valued ! 0)) = ''A''
     \<longleftrightarrow> share ar valued 0 \<le> ABC_A_THRESHOLD
         \<or> (\<forall>k. k < length valued \<longrightarrow> ABC_A_THRESHOLD < share ar valued k)"
proof -
  define none where "none \<longleftrightarrow> (\<forall>k. k < length valued \<longrightarrow> ABC_A_THRESHOLD < share ar valued k)"
  have len: "0 < length valued" using ne by simp
  have "abc_class (snd (abc_sorted ar valued ! 0)) =
      (if none then ''A'' else spec_class (share ar valued 0))"
    by (simp add: abc_sorted_nth [OF T len] none_def)
  then have "abc_class (snd (abc_sorted ar valued ! 0)) = ''A''
     \<longleftrightarrow> share ar valued 0 \<le> ABC_A_THRESHOLD \<or> none"
    by (auto simp add: spec_class_A_iff)
  then show ?thesis by (simp only: none_def)
qed

text \<open>With monotone arithmetic, and no negative value or a last share beyond 96%,
  the first record is class \<open>A\<close> whatever its share.\<close>

lemma abc_sorted_head_A:
  assumes mono: "monotone_arith ar"
    and T: "0 < abc_total ar valued"
    and last: "(\<forall>p\<in>set valued. 0 \<le> value_of p)
               \<or> ABC_B_THRESHOLD < share ar valued (length valued - 1)"
    and ne: "valued \<noteq> []"
  shows "abc_class (snd (abc_sorted ar valued ! 0)) = ''A''"
proof (cases "share ar valued 0 \<le> ABC_A_THRESHOLD")
  case True
  then show ?thesis using abc_sorted_head [OF T ne] by blast
next
  case False
  then have s0: "ABC_A_THRESHOLD < share ar valued 0" by simp
  have "\<forall>k. k < length valued \<longrightarrow> ABC_A_THRESHOLD < share ar valued k"
  proof (intro allI impI)
    fix k assume k: "k < length valued"
    show "ABC_A_THRESHOLD < share ar valued k"
      using share_mono [OF mono T last le0 k thresholds_order s0] .
  qed
  then show ?thesis using abc_sorted_head [OF T ne] by blast
qed

text \<open>
  Claim C6. For every non-empty record set whose total annual consumption value is
  positive, at least one record is class \<open>A\<close> when \<open>compute_abc\<close> returns, in
  \<open>sorted_skus\<close> and in the dict. In particular, when no record's cumulative share
  is within 80%, the record of highest value (the head of the descending order) is
  forced to class \<open>A\<close>; and that record is class \<open>A\<close> in any case when addition
  and division are monotone, as correctly rounded ones are, and either no annual
  value is negative or the share of the last record is beyond 96%.
\<close>

theorem C6_at_least_one_A:
  assumes "valued \<noteq> []" and "0 < abc_total ar valued"
  shows "(\<exists>i. i < length valued \<and> abc_class (snd (abc_sorted ar valued ! i)) = ''A'')
     \<and> ((\<forall>k. k < length valued \<longrightarrow> ABC_A_THRESHOLD < share ar valued k) \<longrightarrow>
          abc_sorted ar valued ! 0 =
            (fst (sort_desc valued ! 0), (snd (sort_desc valued ! 0))\<lparr> abc_class := ''A'' \<rparr>)
          \<and> (\<forall>p \<in> set valued. value_of p \<le> value_of (sort_desc valued ! 0)))
     \<and> (monotone_arith ar
          \<and> ((\<forall>p\<in>set valued. 0 \<le> value_of p)
              \<or> ABC_B_THRESHOLD < share ar valued (length valued - 1)) \<longrightarrow>
          abc_class (snd (abc_sorted ar valued ! 0)) = ''A'')
     \<and> (\<exists>p \<in> set (abc_sorted ar valued). abc_class (snd p) = ''A'')
     \<and> (distinct (map fst valued) \<longrightarrow>
          (\<exists>p \<in> set (abc_dict ar valued). abc_class (snd p) = ''A''))"
proof -
  have len: "0 < length valued" using assms(1) by simp
  obtain i where i: "i < length valued" "abc_class (snd (abc_sorted ar valued ! i)) = ''A''"
    using abc_sorted_has_A [OF assms(2) assms(1)] by blast
  have p1: "\<exists>i. i < length valued \<and> abc_class (snd (abc_sorted ar valued ! i)) = ''A''"
    using i by blast
  have top: "\<forall>p \<in> set valued. value_of p \<le> value_of (sort_desc valued ! 0)"
  proof
    fix p assume "p \<in> set valued"
    then have "p \<in> set (sort_desc valued)" by simp
    then obtain j where j: "j < length (sort_desc valued)" "sort_desc valued ! j = p"
      unfolding in_set_conv_nth by blast
    show "value_of p \<le> value_of (sort_desc valued ! 0)"
      using sort_desc_nth_mono [of 0 j valued] j by simp
  qed
  have p2: "(\<forall>k. k < length valued \<longrightarrow> ABC_A_THRESHOLD < share ar valued k) \<longrightarrow>
          abc_sorted ar valued ! 0 =
            (fst (sort_desc valued ! 0), (snd (sort_desc valued ! 0))\<lparr> abc_class := ''A'' \<rparr>)
          \<and> (\<forall>p \<in> set valued. value_of p \<le> value_of (sort_desc valued ! 0))"
  proof
    assume a: "\<forall>k. k < length valued \<longrightarrow> ABC_A_THRESHOLD < share ar valued k"
    have "abc_sorted ar valued ! 0 =
            (fst (sort_desc valued ! 0), (snd (sort_desc valued ! 0))\<lparr> abc_class := ''A'' \<rparr>)"
      by (subst abc_sorted_nth [OF assms(2) len]) (simp add: a)
    then show "abc_sorted ar valued ! 0 =
            (fst (sort_desc valued ! 0), (snd (sort_desc valued ! 0))\<lparr> abc_class := ''A'' \<rparr>)
          \<and> (\<forall>p \<in> set valued. value_of p \<le> value_of (sort_desc valued ! 0))"
      using top by simp
  qed
  have p2': "monotone_arith ar
          \<and> ((\<forall>p\<in>set valued. 0 \<le> value_of p)
              \<or> ABC_B_THRESHOLD < share ar valued (length valued - 1)) \<longrightarrow>
          abc_class (snd (abc_sorted ar valued ! 0)) = ''A''"
    using abc_sorted_head_A [OF _ assms(2) _ assms(1)] by blast
  have "abc_sorted ar valued ! i \<in> set (abc_sorted ar valued)"
    using i(1) by (intro nth_mem) (simp add: abc_sorted_length)
  then have p3: "\<exists>p \<in> set (abc_sorted ar valued). abc_class (snd p) = ''A''"
    using i(2) by blast
  have p4: "distinct (map fst valued) \<longrightarrow>
          (\<exists>p \<in> set (abc_dict ar valued). abc_class (snd p) = ''A'')"
    using p3 by (simp add: abc_dict_set)
  show ?thesis using p1 p2 p2' p3 p4 by (intro conjI)
qed

text \<open>Witness for C6: values 52 and 468 with exact sums; the shares are 90% and
  100%, none within 80%, and the record of value 468 is forced to \<open>A\<close>.\<close>

theorem C6_at_least_one_A_witness:
  "abc_valued ex_forced_skus ex_abc_costs \<noteq> []
   \<and> 0 < abc_total exact_arith (abc_valued ex_forced_skus ex_abc_costs)
   \<and> distinct (map fst (abc_valued ex_forced_skus ex_abc_costs))
   \<and> monotone_arith exact_arith
   \<and> list_all (\<lambda>p. 0 \<le> value_of p) (abc_valued ex_forced_skus ex_abc_costs)
   \<and> length (abc_valued ex_forced_skus ex_abc_costs) = 2
   \<and> ABC_A_THRESHOLD < share exact_arith (abc_valued ex_forced_skus ex_abc_costs) 0
   \<and> ABC_A_THRESHOLD < share exact_arith (abc_valued ex_forced_skus ex_abc_costs) 1
   \<and> fst (abc_sorted exact_arith (abc_valued ex_forced_skus ex_abc_costs) ! 0) = ''S2''
   \<and> abc_class (snd (abc_sorted exact_arith (abc_valued ex_forced_skus ex_abc_costs) ! 0)) = ''A''
   \<and> (\<exists>p \<in> set (compute_abc exact_arith ex_forced_skus ex_abc_costs). abc_class (snd p) = ''A'')"
proof -
  let ?v = "abc_valued ex_forced_skus ex_abc_costs"
  have h1: "?v \<noteq> []" by (simp add: abc_valued_def ex_forced_skus_def)
  have h2: "0 < abc_total exact_arith ?v" by code_simp
  have l: "length ?v = 2" by (simp add: abc_valued_def ex_forced_skus_def)
  have s0: "ABC_A_THRESHOLD < share exact_arith ?v 0" by code_simp
  have s1: "ABC_A_THRESHOLD < share exact_arith ?v 1" by code_simp
  have h3: "\<forall>k. k < length ?v \<longrightarrow> ABC_A_THRESHOLD < share exact_arith ?v k"
    using s0 s1 by (simp add: l less_Suc_eq numeral_2_eq_2)
  have h4: "fst (sort_desc ?v ! 0) = ''S2''" by code_simp
  have h5: "distinct (map fst ?v)" by (simp add: abc_valued_def ex_forced_skus_def)
  have h6: "monotone_arith exact_arith" by (rule exact_arith_monotone)
  have h7: "list_all (\<lambda>p. 0 \<le> value_of p) ?v" by code_simp
  note t = C6_at_least_one_A [OF h1 h2]
  have r0: "abc_sorted exact_arith ?v ! 0 =
      (fst (sort_desc ?v ! 0), (snd (sort_desc ?v ! 0))\<lparr> abc_class := ''A'' \<rparr>)"
    using t [THEN conjunct2, THEN conjunct1] h3 by blast
  have r1: "\<exists>p \<in> set (abc_dict exact_arith ?v). abc_class (snd p) = ''A''"
    using t [THEN conjunct2, THEN conjunct2, THEN conjunct2, THEN conjunct2] h5 by blast
  have k: "fst (abc_sorted exact_arith ?v ! 0) = ''S2''" by (simp add: r0 h4)
  have c: "abc_class (snd (abc_sorted exact_arith ?v ! 0)) = ''A''"
    using t [THEN conjunct2, THEN conjunct2, THEN conjunct1] h6 h7
    by (simp add: list_all_iff)
  have d: "\<exists>p \<in> set (compute_abc exact_arith ex_forced_skus ex_abc_costs). abc_class (snd p) = ''A''"
    using r1 by (simp add: compute_abc_def)
  show ?thesis using h1 h2 h5 h6 h7 l s0 s1 k c d by (intro conjI)
qed

text \<open>
  Claim C7, as the code has it. For every record set with positive total annual
  consumption value, every record is assigned exactly one class in \<open>{A, B, C}\<close>.
  The records are walked in descending order of annual value, ties in the order of
  the dict (the sort is stable), and the record at index \<open>i\<close> gets the class of its
  cumulative share of the total: \<open>A\<close> while the share is at most 80%, \<open>B\<close> while
  at most 96%, else \<open>C\<close>; except that the first record is class \<open>A\<close> when no
  record's share is within 80%. The dict holds the same records. The class
  boundaries are monotone in the descending order when addition and division are
  monotone, as correctly rounded ones are, and either no annual value is negative
  or the share of the last record is beyond 96%.
\<close>

theorem C7_abc_walk:
  assumes "0 < abc_total ar valued"
  shows "length (abc_sorted ar valued) = length valued
     \<and> sorted (map (\<lambda>p. - value_of p) (sort_desc valued))
     \<and> (\<forall>v. filter (\<lambda>p. value_of p = v) (sort_desc valued)
               = filter (\<lambda>p. value_of p = v) valued)
     \<and> (\<forall>i. i < length valued \<longrightarrow>
           abc_sorted ar valued ! i =
             (fst (sort_desc valued ! i),
              (snd (sort_desc valued ! i))\<lparr> abc_class :=
                 (if i = 0 \<and> (\<forall>k. k < length valued \<longrightarrow> ABC_A_THRESHOLD < share ar valued k)
                  then ''A'' else spec_class (share ar valued i)) \<rparr>))
     \<and> (\<forall>i. i < length valued \<longrightarrow>
           abc_class (snd (abc_sorted ar valued ! i)) \<in> {''A'', ''B'', ''C''})
     \<and> (distinct (map fst valued) \<longrightarrow> set (abc_dict ar valued) = set (abc_sorted ar valued))
     \<and> (monotone_arith ar
          \<and> ((\<forall>p\<in>set valued. 0 \<le> value_of p)
              \<or> ABC_B_THRESHOLD < share ar valued (length valued - 1)) \<longrightarrow>
          (\<forall>i j. i \<le> j \<and> j < length valued \<longrightarrow>
             (abc_class (snd (abc_sorted ar valued ! j)) = ''A''
                \<longrightarrow> abc_class (snd (abc_sorted ar valued ! i)) = ''A'')
           \<and> (abc_class (snd (abc_sorted ar valued ! i)) = ''C''
                \<longrightarrow> abc_class (snd (abc_sorted ar valued ! j)) = ''C'')))"
proof -
  have p1: "length (abc_sorted ar valued) = length valued" by (rule abc_sorted_length)
  have p2: "sorted (map (\<lambda>p. - value_of p) (sort_desc valued))"
    by (rule sort_desc_sorted)
  have p3: "\<forall>v. filter (\<lambda>p. value_of p = v) (sort_desc valued)
               = filter (\<lambda>p. value_of p = v) valued"
    by (simp add: sort_desc_stable)
  have p4: "\<forall>i. i < length valued \<longrightarrow>
           abc_sorted ar valued ! i =
             (fst (sort_desc valued ! i),
              (snd (sort_desc valued ! i))\<lparr> abc_class :=
                 (if i = 0 \<and> (\<forall>k. k < length valued \<longrightarrow> ABC_A_THRESHOLD < share ar valued k)
                  then ''A'' else spec_class (share ar valued i)) \<rparr>)"
    using abc_sorted_nth [OF assms] by blast
  have p5: "\<forall>i. i < length valued \<longrightarrow>
           abc_class (snd (abc_sorted ar valued ! i)) \<in> {''A'', ''B'', ''C''}"
  proof (intro allI impI)
    fix i assume i: "i < length valued"
    define cls where "cls =
      (if i = 0 \<and> (\<forall>k. k < length valued \<longrightarrow> ABC_A_THRESHOLD < share ar valued k)
       then ''A'' else spec_class (share ar valued i))"
    have "cls \<in> {''A'', ''B'', ''C''}"
    proof (cases "i = 0 \<and> (\<forall>k. k < length valued \<longrightarrow> ABC_A_THRESHOLD < share ar valued k)")
      case True
      have "cls = ''A''" unfolding cls_def by (rule if_P [OF True])
      then show ?thesis by simp
    next
      case False
      have "cls = spec_class (share ar valued i)" unfolding cls_def by (rule if_not_P [OF False])
      then show ?thesis using spec_class_cases [of "share ar valued i"] by simp
    qed
    moreover have "abc_class (snd (abc_sorted ar valued ! i)) = cls"
      unfolding cls_def by (subst abc_sorted_nth [OF assms i]) simp
    ultimately show "abc_class (snd (abc_sorted ar valued ! i)) \<in> {''A'', ''B'', ''C''}"
      by simp
  qed
  have p6: "distinct (map fst valued) \<longrightarrow> set (abc_dict ar valued) = set (abc_sorted ar valued)"
    by (simp add: abc_dict_set)
  have p7: "monotone_arith ar
          \<and> ((\<forall>p\<in>set valued. 0 \<le> value_of p)
              \<or> ABC_B_THRESHOLD < share ar valued (length valued - 1)) \<longrightarrow>
          (\<forall>i j. i \<le> j \<and> j < length valued \<longrightarrow>
             (abc_class (snd (abc_sorted ar valued ! j)) = ''A''
                \<longrightarrow> abc_class (snd (abc_sorted ar valued ! i)) = ''A'')
           \<and> (abc_class (snd (abc_sorted ar valued ! i)) = ''C''
                \<longrightarrow> abc_class (snd (abc_sorted ar valued ! j)) = ''C''))"
  proof (intro impI allI)
    fix i j
    assume h: "monotone_arith ar
          \<and> ((\<forall>p\<in>set valued. 0 \<le> value_of p)
              \<or> ABC_B_THRESHOLD < share ar valued (length valued - 1))"
      and ij: "i \<le> j \<and> j < length valued"
    show "(abc_class (snd (abc_sorted ar valued ! j)) = ''A''
                \<longrightarrow> abc_class (snd (abc_sorted ar valued ! i)) = ''A'')
           \<and> (abc_class (snd (abc_sorted ar valued ! i)) = ''C''
                \<longrightarrow> abc_class (snd (abc_sorted ar valued ! j)) = ''C'')"
      using abc_sorted_monotone [OF conjunct1 [OF h] assms conjunct2 [OF h]
          conjunct1 [OF ij] conjunct2 [OF ij]] .
  qed
  show ?thesis
    using p1 p2 p3 p4 p5 p6 p7 by (intro conjI)
qed

text \<open>Witness for C7: values 52, 364 and 104 with exact sums. The order is S1, S2,
  S3 with shares 70%, 90% and 100%, hence classes \<open>A\<close>, \<open>B\<close> and \<open>C\<close>.\<close>

theorem C7_abc_walk_witness:
  "0 < abc_total exact_arith (abc_valued ex_abc_skus ex_abc_costs)
   \<and> monotone_arith exact_arith
   \<and> list_all (\<lambda>p. 0 \<le> value_of p) (abc_valued ex_abc_skus ex_abc_costs)
   \<and> map fst (sort_desc (abc_valued ex_abc_skus ex_abc_costs)) = [''S1'', ''S2'', ''S3'']
   \<and> abc_class (snd (abc_sorted exact_arith (abc_valued ex_abc_skus ex_abc_costs) ! 0)) = ''A''
   \<and> abc_class (snd (abc_sorted exact_arith (abc_valued ex_abc_skus ex_abc_costs) ! 1)) = ''B''
   \<and> abc_class (snd (abc_sorted exact_arith (abc_valued ex_abc_skus ex_abc_costs) ! 2)) = ''C''"
proof -
  let ?v = "abc_valued ex_abc_skus ex_abc_costs"
  have h: "0 < abc_total exact_arith ?v" by code_simp
  have m: "monotone_arith exact_arith" by (rule exact_arith_monotone)
  have n: "list_all (\<lambda>p. 0 \<le> value_of p) ?v" by code_simp
  have l: "length ?v = 3" by (simp add: abc_valued_def ex_abc_skus_def)
  have k: "map fst (sort_desc ?v) = [''S1'', ''S2'', ''S3'']" by code_simp
  have c0: "spec_class (share exact_arith ?v 0) = ''A''" by code_simp
  have c1: "spec_class (share exact_arith ?v 1) = ''B''" by code_simp
  have c2: "spec_class (share exact_arith ?v 2) = ''C''" by code_simp
  have nth: "\<forall>i. i < length ?v \<longrightarrow>
           abc_sorted exact_arith ?v ! i =
             (fst (sort_desc ?v ! i),
              (snd (sort_desc ?v ! i))\<lparr> abc_class :=
                 (if i = 0 \<and> (\<forall>k. k < length ?v \<longrightarrow> ABC_A_THRESHOLD < share exact_arith ?v k)
                  then ''A'' else spec_class (share exact_arith ?v i)) \<rparr>)"
    using C7_abc_walk [OF h] by blast
  have r0: "abc_class (snd (abc_sorted exact_arith ?v ! 0)) = ''A''"
    using nth l c0 by (simp split: if_splits)
  have r1: "abc_class (snd (abc_sorted exact_arith ?v ! 1)) = ''B''"
    using nth l c1 by simp
  have r2: "abc_class (snd (abc_sorted exact_arith ?v ! 2)) = ''C''"
    using nth l c2 by simp
  show ?thesis
    using h m n k r0 r1 r2 by (intro conjI)
qed

text \<open>
  The claim as stated fails for the first record: a single record has cumulative
  share 100%, which the thresholds alone class \<open>C\<close>, and \<open>compute_abc\<close> leaves it
  in class \<open>A\<close>.
\<close>

theorem C7_first_record_counterexample:
  "0 < abc_total exact_arith (abc_valued ex_single_skus ex_abc_costs)
   \<and> share exact_arith (abc_valued ex_single_skus ex_abc_costs) 0 = 1
   \<and> spec_class (share exact_arith (abc_valued ex_single_skus ex_abc_costs) 0) = ''C''
   \<and> abc_class (snd (abc_sorted exact_arith (abc_valued ex_single_skus ex_abc_costs) ! 0)) = ''A''
   \<and> abc_class (snd (compute_abc exact_arith ex_single_skus ex_abc_costs ! 0)) = ''A''"
  by code_simp

text \<open>
  Claim C8. If the total annual consumption value is at most 0, \<open>compute_abc\<close>
  assigns class \<open>C\<close> to every record and returns without a threshold walk:
  \<open>sorted_skus\<close> is the descending order with every class set to \<open>C\<close>, and so is
  every record of the dict. The guard \<open>total_value <= 0\<close> and the loop that follows
  it have no operation that can raise.
\<close>

theorem C8_degenerate:
  assumes "abc_total ar valued \<le> 0"
  shows "abc_sorted ar valued =
           map (\<lambda>(code, sku). (code, sku\<lparr> abc_class := ''C'' \<rparr>)) (sort_desc valued)
     \<and> (\<forall>p \<in> set (abc_sorted ar valued). abc_class (snd p) = ''C'')
     \<and> (\<forall>p \<in> set (abc_dict ar valued). abc_class (snd p) = ''C'')"
proof -
  have eq: "abc_sorted ar valued =
           map (\<lambda>(code, sku). (code, sku\<lparr> abc_class := ''C'' \<rparr>)) (sort_desc valued)"
    using assms by (simp add: abc_sorted_nonpositive)
  have all: "\<forall>p \<in> set (abc_sorted ar valued). abc_class (snd p) = ''C''"
    unfolding eq by auto
  have "\<forall>p \<in> set (abc_dict ar valued). abc_class (snd p) = ''C''"
    using all abc_dict_elem by blast
  with eq all show ?thesis by simp
qed

text \<open>Witness for C8: two records with no cost data, hence annual values 0.\<close>

theorem C8_degenerate_witness:
  "abc_total exact_arith (abc_valued ex_zero_skus []) \<le> 0
   \<and> abc_class (snd (compute_abc exact_arith ex_zero_skus [] ! 0)) = ''C''
   \<and> abc_class (snd (compute_abc exact_arith ex_zero_skus [] ! 1)) = ''C''"
proof -
  have h: "abc_total exact_arith (abc_valued ex_zero_skus []) \<le> 0" by code_simp
  have l: "length (abc_dict exact_arith (abc_valued ex_zero_skus [])) = 2"
    by (simp add: abc_dict_def abc_valued_def ex_zero_skus_def Let_def)
  have m0: "abc_dict exact_arith (abc_valued ex_zero_skus []) ! 0
      \<in> set (abc_dict exact_arith (abc_valued ex_zero_skus []))"
    using l by simp
  have m1: "abc_dict exact_arith (abc_valued ex_zero_skus []) ! 1
      \<in> set (abc_dict exact_arith (abc_valued ex_zero_skus []))"
    using l by simp
  show ?thesis
    unfolding compute_abc_def using h m0 m1 C8_degenerate [OF h] by blast
qed

subsection \<open>Activity reports: the transaction filter\<close>

lemma get_or_empty_update:
  "get_or_empty (AList.update k h mo) k' = (if k' = k then h else get_or_empty mo k')"
  by (simp add: get_or_empty_def update_conv')

lemma bucket_add_qty_same:
  "bucket (add_qty ar mo sku key q) sku key = py_add ar (bucket mo sku key) q"
  by (simp add: bucket_def add_qty_def Let_def get_or_empty_update update_conv'
      split: option.splits)

lemma bucket_add_qty_other:
  "(sku', key') \<noteq> (sku, key) \<Longrightarrow> bucket (add_qty ar mo sku key q) sku' key' = bucket mo sku' key'"
  by (auto simp add: bucket_def add_qty_def Let_def get_or_empty_update update_conv'
      split: option.splits)

lemma activity_row_filtered:
  assumes "contains (ref_of row) ''adjust'' \<or> contains (ref_of row) ''adj''
             \<or> startswith (ref_of row) ''mv''"
  shows "monthly_out (activity_row ar st row) = monthly_out st
       \<and> total_transactions (activity_row ar st row) = total_transactions st
       \<and> file_tx (activity_row ar st row) = file_tx st"
  using assms
  by (auto simp add: activity_row_def Let_def split: option.splits)

lemma activity_row_transaction:
  assumes "\<not> sku_header row"
    and "act_current_sku st = Some sku" and "sku \<noteq> []"
    and "text_at row 5 \<noteq> []"
    and "text_at row 5 \<notin> set [''Activity Date'', ''Beginning Balance'', ''Ending Balance'', []]"
    and "row_date row (text_at row 5) = Some (y, m, d)"
  shows "activity_row ar st row =
     (if contains (ref_of row) ''adjust'' \<or> contains (ref_of row) ''adj''
      then st\<lparr> filtered_adjustments := filtered_adjustments st + 1,
               file_filtered := file_filtered st + 1 \<rparr>
      else if startswith (ref_of row) ''mv''
      then st\<lparr> filtered_moves := filtered_moves st + 1,
               file_filtered := file_filtered st + 1 \<rparr>
      else if num_at row 10 0 > 0
      then st\<lparr> monthly_out := add_qty ar (monthly_out st) sku (month_key y m) (num_at row 10 0),
               file_tx := file_tx st + 1,
               total_transactions := total_transactions st + 1 \<rparr>
      else st)"
  using assms
  by (simp add: activity_row_def Let_def)

text \<open>
  Claim C9. In the activity aggregator, a row whose lower-cased reference text
  contains \<open>adjust\<close> or \<open>adj\<close>, or starts with \<open>mv\<close>, leaves the monthly
  histogram unchanged. On a transaction row (not a SKU header, a SKU open, a date
  that parses) such a row adds one to the adjustment counter, or else to the move
  counter, and to nothing else; a surviving row with a positive quantity out adds
  that quantity, with Python's \<open>+\<close>, to the bucket of the current SKU and the
  row's year-month, and leaves every other bucket as it was.
\<close>

theorem C9_transaction_filter:
  "(contains (ref_of row) ''adjust'' \<or> contains (ref_of row) ''adj''
       \<or> startswith (ref_of row) ''mv''
     \<longrightarrow> monthly_out (activity_row ar st row) = monthly_out st)
   \<and> (\<not> sku_header row \<and> act_current_sku st = Some sku \<and> sku \<noteq> [] \<and> text_at row 5 \<noteq> []
        \<and> text_at row 5 \<notin> set [''Activity Date'', ''Beginning Balance'', ''Ending Balance'', []]
        \<and> row_date row (text_at row 5) = Some (y, m, d)
     \<longrightarrow> (contains (ref_of row) ''adjust'' \<or> contains (ref_of row) ''adj''
            \<longrightarrow> filtered_adjustments (activity_row ar st row) = filtered_adjustments st + 1
                \<and> filtered_moves (activity_row ar st row) = filtered_moves st
                \<and> total_transactions (activity_row ar st row) = total_transactions st)
         \<and> (\<not> contains (ref_of row) ''adjust'' \<and> \<not> contains (ref_of row) ''adj''
              \<and> startswith (ref_of row) ''mv''
            \<longrightarrow> filtered_moves (activity_row ar st row) = filtered_moves st + 1
                \<and> filtered_adjustments (activity_row ar st row) = filtered_adjustments st
                \<and> total_transactions (activity_row ar st row) = total_transactions st)
         \<and> (\<not> contains (ref_of row) ''adjust'' \<and> \<not> contains (ref_of row) ''adj''
              \<and> \<not> startswith (ref_of row) ''mv'' \<and> 0 < num_at row 10 0
            \<longrightarrow> monthly_out (activity_row ar st row)
                  = add_qty ar (monthly_out st) sku (month_key y m) (num_at row 10 0)
                \<and> bucket (monthly_out (activity_row ar st row)) sku (month_key y m)
                  = py_add ar (bucket (monthly_out st) sku (month_key y m)) (num_at row 10 0)
                \<and> (\<forall>sku' key'. (sku', key') \<noteq> (sku, month_key y m)
                      \<longrightarrow> bucket (monthly_out (activity_row ar st row)) sku' key'
                          = bucket (monthly_out st) sku' key')
                \<and> filtered_adjustments (activity_row ar st row) = filtered_adjustments st
                \<and> filtered_moves (activity_row ar st row) = filtered_moves st))"
proof (intro conjI impI)
  assume "contains (ref_of row) ''adjust'' \<or> contains (ref_of row) ''adj''
       \<or> startswith (ref_of row) ''mv''"
  then show "monthly_out (activity_row ar st row) = monthly_out st"
    using activity_row_filtered by blast
next
  assume tx: "\<not> sku_header row \<and> act_current_sku st = Some sku \<and> sku \<noteq> [] \<and> text_at row 5 \<noteq> []
        \<and> text_at row 5 \<notin> set [''Activity Date'', ''Beginning Balance'', ''Ending Balance'', []]
        \<and> row_date row (text_at row 5) = Some (y, m, d)"
  have step: "activity_row ar st row =
     (if contains (ref_of row) ''adjust'' \<or> contains (ref_of row) ''adj''
      then st\<lparr> filtered_adjustments := filtered_adjustments st + 1,
               file_filtered := file_filtered st + 1 \<rparr>
      else if startswith (ref_of row) ''mv''
      then st\<lparr> filtered_moves := filtered_moves st + 1,
               file_filtered := file_filtered st + 1 \<rparr>
      else if num_at row 10 0 > 0
      then st\<lparr> monthly_out := add_qty ar (monthly_out st) sku (month_key y m) (num_at row 10 0),
               file_tx := file_tx st + 1,
               total_transactions := total_transactions st + 1 \<rparr>
      else st)"
    using tx by (intro activity_row_transaction) simp_all
  {
    assume "contains (ref_of row) ''adjust'' \<or> contains (ref_of row) ''adj''"
    then show "filtered_adjustments (activity_row ar st row) = filtered_adjustments st + 1"
      and "filtered_moves (activity_row ar st row) = filtered_moves st"
      and "total_transactions (activity_row ar st row) = total_transactions st"
      by (simp_all add: step)
  }
  {
    assume "\<not> contains (ref_of row) ''adjust'' \<and> \<not> contains (ref_of row) ''adj''
              \<and> startswith (ref_of row) ''mv''"
    then show "filtered_moves (activity_row ar st row) = filtered_moves st + 1"
      and "filtered_adjustments (activity_row ar st row) = filtered_adjustments st"
      and "total_transactions (activity_row ar st row) = total_transactions st"
      by (simp_all add: step)
  }
  {
    assume s: "\<not> contains (ref_of row) ''adjust'' \<and> \<not> contains (ref_of row) ''adj''
              \<and> \<not> startswith (ref_of row) ''mv'' \<and> 0 < num_at row 10 0"
    then show m: "monthly_out (activity_row ar st row)
                  = add_qty ar (monthly_out st) sku (month_key y m) (num_at row 10 0)"
      and "filtered_adjustments (activity_row ar st row) = filtered_adjustments st"
      and "filtered_moves (activity_row ar st row) = filtered_moves st"
      by (simp_all add: step)
    show "bucket (monthly_out (activity_row ar st row)) sku (month_key y m)
                  = py_add ar (bucket (monthly_out st) sku (month_key y m)) (num_at row 10 0)"
      unfolding m by (rule bucket_add_qty_same)
    show "\<forall>sku' key'. (sku', key') \<noteq> (sku, month_key y m)
                      \<longrightarrow> bucket (monthly_out (activity_row ar st row)) sku' key'
                          = bucket (monthly_out st) sku' key'"
      unfolding m using bucket_add_qty_other by blast
  }
qed

text \<open>Witness for C9: with SKU \<open>S1\<close> open, a row of 15 March 2024 with
  reference \<open>ADJ-002\<close> counts as an adjustment and one with \<open>MV1002\<close> as a
  move, neither touching the histogram; one with \<open>SO-4471\<close> and quantity out 12
  puts 12 into the bucket \<open>2024-03\<close>.\<close>

theorem C9_transaction_filter_witness:
  "monthly_out (activity_row exact_arith ex_act_state (ex_tx_row (CDate 2024 3 15) ''ADJ-002'' 5))
     = monthly_out ex_act_state
   \<and> filtered_adjustments (activity_row exact_arith ex_act_state (ex_tx_row (CDate 2024 3 15) ''ADJ-002'' 5))
     = filtered_adjustments ex_act_state + 1
   \<and> monthly_out (activity_row exact_arith ex_act_state (ex_tx_row (CDate 2024 3 15) ''MV1002'' 5))
     = monthly_out ex_act_state
   \<and> filtered_moves (activity_row exact_arith ex_act_state (ex_tx_row (CDate 2024 3 15) ''MV1002'' 5))
     = filtered_moves ex_act_state + 1
   \<and> bucket (monthly_out (activity_row exact_arith ex_act_state (ex_tx_row (CDate 2024 3 15) ''SO-4471'' 12)))
       ''S1'' ''2024-03'' = 12"
proof -
  let ?adj = "ex_tx_row (CDate 2024 3 15) ''ADJ-002'' 5"
  let ?mv = "ex_tx_row (CDate 2024 3 15) ''MV1002'' 5"
  let ?so = "ex_tx_row (CDate 2024 3 15) ''SO-4471'' 12"
  have a: "contains (ref_of ?adj) ''adj''" by code_simp
  have a': "\<not> sku_header ?adj \<and> act_current_sku ex_act_state = Some ''S1'' \<and> ''S1'' \<noteq> [] \<and> text_at ?adj 5 \<noteq> []
        \<and> text_at ?adj 5 \<notin> set [''Activity Date'', ''Beginning Balance'', ''Ending Balance'', []]
        \<and> row_date ?adj (text_at ?adj 5) = Some (2024, 3, 15)"
    by code_simp
  have b: "startswith (ref_of ?mv) ''mv''" by code_simp
  have b': "\<not> sku_header ?mv \<and> act_current_sku ex_act_state = Some ''S1'' \<and> ''S1'' \<noteq> [] \<and> text_at ?mv 5 \<noteq> []
        \<and> text_at ?mv 5 \<notin> set [''Activity Date'', ''Beginning Balance'', ''Ending Balance'', []]
        \<and> row_date ?mv (text_at ?mv 5) = Some (2024, 3, 15)"
    by code_simp
  have b'': "\<not> contains (ref_of ?mv) ''adjust'' \<and> \<not> contains (ref_of ?mv) ''adj''
        \<and> startswith (ref_of ?mv) ''mv''"
    by code_simp
  have c: "\<not> sku_header ?so \<and> act_current_sku ex_act_state = Some ''S1'' \<and> ''S1'' \<noteq> [] \<and> text_at ?so 5 \<noteq> []
        \<and> text_at ?so 5 \<notin> set [''Activity Date'', ''Beginning Balance'', ''Ending Balance'', []]
        \<and> row_date ?so (text_at ?so 5) = Some (2024, 3, 15)"
    by code_simp
  have d: "\<not> contains (ref_of ?so) ''adjust'' \<and> \<not> contains (ref_of ?so) ''adj''
              \<and> \<not> startswith (ref_of ?so) ''mv'' \<and> 0 < num_at ?so 10 0"
    by code_simp
  have e: "month_key 2024 3 = ''2024-03''" by code_simp
  have f: "bucket (monthly_out ex_act_state) ''S1'' ''2024-03'' = 0" by code_simp
  have g: "num_at ?so 10 0 = 12" by code_simp
  have r1: "monthly_out (activity_row exact_arith ex_act_state ?adj) = monthly_out ex_act_state"
    using a C9_transaction_filter [where row = ?adj and st = ex_act_state and ar = exact_arith, THEN conjunct1]
    by simp
  have r1': "filtered_adjustments (activity_row exact_arith ex_act_state ?adj)
      = filtered_adjustments ex_act_state + 1"
    using a C9_transaction_filter [where row = ?adj and st = ex_act_state and ar = exact_arith and sku = "''S1''"
        and y = 2024 and m = 3 and d = 15, THEN conjunct2, THEN mp, OF a', THEN conjunct1]
    by simp
  have r2: "monthly_out (activity_row exact_arith ex_act_state ?mv) = monthly_out ex_act_state"
    using b C9_transaction_filter [where row = ?mv and st = ex_act_state and ar = exact_arith, THEN conjunct1]
    by simp
  have r2': "filtered_moves (activity_row exact_arith ex_act_state ?mv) = filtered_moves ex_act_state + 1"
    using C9_transaction_filter [where row = ?mv and st = ex_act_state and ar = exact_arith and sku = "''S1''"
        and y = 2024 and m = 3 and d = 15, THEN conjunct2, THEN mp, OF b',
        THEN conjunct2, THEN conjunct1, THEN mp, OF b'', THEN conjunct1] .
  have "bucket (monthly_out (activity_row exact_arith ex_act_state ?so)) ''S1'' (month_key 2024 3)
      = py_add exact_arith (bucket (monthly_out ex_act_state) ''S1'' (month_key 2024 3))
          (num_at ?so 10 0)"
    using C9_transaction_filter [where row = ?so and st = ex_act_state and ar = exact_arith and sku = "''S1''"
        and y = 2024 and m = 3 and d = 15, THEN conjunct2, THEN mp, OF c,
        THEN conjunct2, THEN conjunct2, THEN mp, OF d, THEN conjunct2, THEN conjunct1] .
  then have r3: "bucket (monthly_out (activity_row exact_arith ex_act_state ?so)) ''S1'' ''2024-03'' = 12"
    by (simp add: e f g exact_arith_def)
  show ?thesis using r1 r1' r2 r2' r3 by simp
qed

text \<open>The same rows through the whole reader, dates as texts included; and a
  reference that starts with a no-break space, which \<open>strip()\<close> removes, is a
  warehouse move all the same.\<close>

lemma parse_activity_reports_example:
  "parse_activity_reports exact_arith
     [Some [ex_header_row ''S1'',
            ex_tx_row (CDate 2024 3 15) ''ADJ-002'' 5,
            ex_tx_row (CText ''03/16/2024'') ''MV1002'' 5,
            ex_tx_row (CText ''3/17/2024'') ''SO-4471'' 12]]
   = [(''S1'', [(''2024-03'', 12)])]"
  by code_simp

lemma nbsp_reference_filtered:
  "ref_of (ex_tx_row (CDate 2024 3 15) (CHR 0xA0 # ''MV1002'') 5) = ''mv1002''
   \<and> monthly_out (activity_row exact_arith ex_act_state
                    (ex_tx_row (CDate 2024 3 15) (CHR 0xA0 # ''MV1002'') 5))
       = monthly_out ex_act_state
   \<and> filtered_moves (activity_row exact_arith ex_act_state
                    (ex_tx_row (CDate 2024 3 15) (CHR 0xA0 # ''MV1002'') 5)) = 1"
  by code_simp

subsection \<open>Activity reports: every stored quantity is positive\<close>

text \<open>Only quantities above 0 are accumulated, so every bucket of the histograms is
  positive, for every arithmetic in which a number that is not negative plus a
  positive one is positive (as it is for doubles).\<close>

lemma activity_row_cases:
  "monthly_out (activity_row ar st row) = monthly_out st
   \<or> (\<exists>sku key q. 0 < q \<and> monthly_out (activity_row ar st row) = add_qty ar (monthly_out st) sku key q)"
  by (auto simp add: activity_row_def Let_def split: option.splits)

lemma get_or_empty_positive:
  assumes "\<forall>p\<in>set mo. \<forall>e\<in>set (snd p). 0 < snd e"
  shows "\<forall>e\<in>set (get_or_empty mo sku). 0 < snd e"
proof (cases "map_of mo sku")
  case None
  then show ?thesis by (simp add: get_or_empty_def)
next
  case (Some h)
  then have "(sku, h) \<in> set mo" by (rule map_of_SomeD)
  then show ?thesis using assms Some by (force simp add: get_or_empty_def)
qed

lemma add_qty_positive:
  assumes pos: "\<forall>x y. 0 \<le> x \<and> 0 < y \<longrightarrow> 0 < py_add ar x y"
    and inv: "\<forall>p\<in>set mo. \<forall>e\<in>set (snd p). (0::real) < snd e" and q: "0 < q"
  shows "\<forall>p\<in>set (add_qty ar mo sku key q). \<forall>e\<in>set (snd p). 0 < snd e"
proof -
  let ?hist = "get_or_empty mo sku"
  let ?old = "case map_of ?hist key of Some v \<Rightarrow> v | None \<Rightarrow> 0"
  have h: "\<forall>e\<in>set ?hist. 0 < snd e" using inv by (rule get_or_empty_positive)
  have old: "0 \<le> ?old"
  proof (cases "map_of ?hist key")
    case None
    then show ?thesis by simp
  next
    case (Some v)
    then have "(key, v) \<in> set ?hist" by (rule map_of_SomeD)
    then have "0 < v" using h by force
    then show ?thesis using Some by simp
  qed
  have "0 < py_add ar ?old q" using pos old q by blast
  with h have "\<forall>e\<in>set (AList.update key (py_add ar ?old q) ?hist). 0 < snd e"
    by (rule update_all_values)
  with inv have "\<forall>p\<in>set (AList.update sku (AList.update key (py_add ar ?old q) ?hist) mo).
      \<forall>e\<in>set (snd p). 0 < snd e"
    by (rule update_all_values)
  then show ?thesis by (simp add: add_qty_def Let_def)
qed

lemma activity_row_positive:
  assumes pos: "\<forall>x y. 0 \<le> x \<and> 0 < y \<longrightarrow> 0 < py_add ar x y"
    and inv: "\<forall>p\<in>set (monthly_out st). \<forall>e\<in>set (snd p). 0 < snd e"
  shows "\<forall>p\<in>set (monthly_out (activity_row ar st row)). \<forall>e\<in>set (snd p). 0 < snd e"
proof -
  from activity_row_cases [of ar st row] consider
      (same) "monthly_out (activity_row ar st row) = monthly_out st"
    | (add) sku key q where "0 < q"
        "monthly_out (activity_row ar st row) = add_qty ar (monthly_out st) sku key q"
    by blast
  then show ?thesis
  proof cases
    case same
    then show ?thesis using inv by simp
  next
    case add
    show ?thesis unfolding add(2) using pos inv add(1) by (rule add_qty_positive)
  qed
qed

lemma activity_rows_positive:
  assumes pos: "\<forall>x y. 0 \<le> x \<and> 0 < y \<longrightarrow> 0 < py_add ar x y"
  shows "\<forall>p\<in>set (monthly_out st). \<forall>e\<in>set (snd p). 0 < snd e \<Longrightarrow>
   \<forall>p\<in>set (monthly_out (foldl (activity_row ar) st rows)). \<forall>e\<in>set (snd p). 0 < snd e"
proof (induction rows arbitrary: st)
  case Nil
  then show ?case by simp
next
  case (Cons row rows)
  have "\<forall>p\<in>set (monthly_out (activity_row ar st row)). \<forall>e\<in>set (snd p). 0 < snd e"
    using pos Cons.prems by (rule activity_row_positive)
  then show ?case using Cons.IH by simp
qed

lemma activity_file_positive:
  assumes pos: "\<forall>x y. 0 \<le> x \<and> 0 < y \<longrightarrow> 0 < py_add ar x y"
    and inv: "\<forall>p\<in>set (monthly_out st). \<forall>e\<in>set (snd p). 0 < snd e"
  shows "\<forall>p\<in>set (monthly_out (activity_file ar st fl)). \<forall>e\<in>set (snd p). 0 < snd e"
proof (cases fl)
  case None
  then show ?thesis using inv by (simp add: activity_file_def)
next
  case (Some rows)
  have "\<forall>p\<in>set (monthly_out (st\<lparr> act_current_sku := None, file_tx := 0, file_filtered := 0 \<rparr>)).
      \<forall>e\<in>set (snd p). 0 < snd e"
    using inv by simp
  then show ?thesis unfolding activity_file_def Some option.case
    by (rule activity_rows_positive [OF pos])
qed

lemma activity_files_fold_positive:
  assumes pos: "\<forall>x y. 0 \<le> x \<and> 0 < y \<longrightarrow> 0 < py_add ar x y"
  shows "\<forall>p\<in>set (monthly_out st). \<forall>e\<in>set (snd p). 0 < snd e \<Longrightarrow>
   \<forall>p\<in>set (monthly_out (foldl (activity_file ar) st files)). \<forall>e\<in>set (snd p). 0 < snd e"
proof (induction files arbitrary: st)
  case Nil
  then show ?case by simp
next
  case (Cons fl files)
  have "\<forall>p\<in>set (monthly_out (activity_file ar st fl)). \<forall>e\<in>set (snd p). 0 < snd e"
    using pos Cons.prems by (rule activity_file_positive)
  then show ?case using Cons.IH by simp
qed

lemma parse_activity_reports_positive:
  assumes pos: "\<forall>x y. 0 \<le> x \<and> 0 < y \<longrightarrow> 0 < py_add ar x y"
  shows "\<forall>p\<in>set (parse_activity_reports ar files). \<forall>e\<in>set (snd p). 0 < snd e"
  unfolding parse_activity_reports_def activity_files_def
  by (rule activity_files_fold_positive [OF pos]) simp

end
